theory Spec2Isabelle
  imports Complex_Main "HOL-Library.Word"
begin

unbundle bit_operations_syntax

section \<open>Tensors\<close>

text \<open>
  A three-dimensional tensor is a list (axis 0) of lists (axis 1) of lists (axis 2).
  The boolean fields of the automaton are \<open>uint8\<close> tensors, the coordinate, random and
  probability tensors hold integers (\<open>int16\<close> and \<open>int64\<close> values that stay far below
  their bounds: every stored value lies in \<open>[0, 10000]\<close> or is a grid coordinate).
\<close>

type_synonym 'a tensor3 = "'a list list list"
type_synonym u8 = "8 word"

definition cell :: "'a tensor3 \<Rightarrow> nat \<Rightarrow> nat \<Rightarrow> nat \<Rightarrow> 'a" where
  "cell g i j k = g ! i ! j ! k"

definition shaped :: "nat \<Rightarrow> nat \<Rightarrow> nat \<Rightarrow> 'a tensor3 \<Rightarrow> bool" where
  "shaped w d h g \<longleftrightarrow>
     length g = w \<and> (\<forall>p \<in> set g. length p = d \<and> (\<forall>r \<in> set p. length r = h))"

definition flatten :: "'a tensor3 \<Rightarrow> 'a list" where
  \<comment> \<open>\<open>t.reshape(1, -1).squeeze()\<close>: the cells in row-major order\<close>
  "flatten g = concat (map concat g)"

definition map3 :: "('a \<Rightarrow> 'b) \<Rightarrow> 'a tensor3 \<Rightarrow> 'b tensor3" where
  \<comment> \<open>an operation between a tensor and a scalar, or a unary one, cell by cell\<close>
  "map3 f g = map (map (map f)) g"

definition ew2 :: "('a \<Rightarrow> 'b \<Rightarrow> 'c) \<Rightarrow> 'a tensor3 \<Rightarrow> 'b tensor3 \<Rightarrow> 'c tensor3" where
  \<comment> \<open>an operation between two tensors of one shape, cell by cell\<close>
  "ew2 f a b = map2 (map2 (map2 f)) a b"

definition zeros :: "int \<Rightarrow> int \<Rightarrow> int \<Rightarrow> 'a::zero tensor3" where
  \<comment> \<open>\<open>torch.zeros((w, d, h))\<close>, reached with non-negative sizes only\<close>
  "zeros w d h = replicate (nat w) (replicate (nat d) (replicate (nat h) 0))"

datatype error = InvalidDimension | RuntimeError

definition arange :: "int \<Rightarrow> int \<Rightarrow> error + int list" where
  \<comment> \<open>\<open>torch.arange(lo, hi)\<close>: an upper bound below the lower one is refused\<close>
  "arange lo hi = (if hi < lo then Inl RuntimeError else Inr [lo..hi - 1])"

definition meshgrid ::
  "int list \<Rightarrow> int list \<Rightarrow> int list \<Rightarrow> int tensor3 \<times> int tensor3 \<times> int tensor3" where
  "meshgrid a b c =
     (map (\<lambda>i. map (\<lambda>j. map (\<lambda>k. i) c) b) a,
      map (\<lambda>i. map (\<lambda>j. map (\<lambda>k. j) c) b) a,
      map (\<lambda>i. map (\<lambda>j. map (\<lambda>k. k) c) b) a)"

subsection \<open>Slices and concatenation\<close>

definition py_bound :: "int \<Rightarrow> nat \<Rightarrow> nat" where
  \<comment> \<open>a slice bound on a sequence of length \<open>n\<close>: negative bounds count from the end,
      and every bound is clipped to \<open>[0, n]\<close>\<close>
  "py_bound s n = (if s < 0 then nat (max 0 (int n + s)) else min n (nat s))"

definition slice_from :: "int \<Rightarrow> 'a list \<Rightarrow> 'a list" where
  \<comment> \<open>\<open>a[s:]\<close>\<close>
  "slice_from s a = drop (py_bound s (length a)) a"

definition slice_to :: "int \<Rightarrow> 'a list \<Rightarrow> 'a list" where
  \<comment> \<open>\<open>a[:s]\<close>\<close>
  "slice_to s a = take (py_bound s (length a)) a"

definition shift0 :: "int \<Rightarrow> 'a tensor3 \<Rightarrow> 'a tensor3" where
  \<comment> \<open>\<open>torch.cat((a[s:,:,:], a[:s,:,:]), dim=0)\<close>\<close>
  "shift0 s a = slice_from s a @ slice_to s a"

definition shift1 :: "int \<Rightarrow> 'a tensor3 \<Rightarrow> 'a tensor3" where
  \<comment> \<open>\<open>torch.cat((a[:,s:,:], a[:,:s,:]), dim=1)\<close>\<close>
  "shift1 s a = map2 (@) (map (slice_from s) a) (map (slice_to s) a)"

definition shift2 :: "int \<Rightarrow> 'a tensor3 \<Rightarrow> 'a tensor3" where
  \<comment> \<open>\<open>torch.cat((a[:,:,s:], a[:,:,:s]), dim=2)\<close>\<close>
  "shift2 s a =
     map2 (map2 (@)) (map (map (slice_from s)) a) (map (map (slice_to s)) a)"

section \<open>The engine\<close>

text \<open>
  \<open>P_hum\<close> starts as a tensor and is rebound to a plain number by the seeding operation;
  a comparison of a tensor with a number broadcasts the number to every cell.
\<close>

datatype prob = Tensor "int tensor3" | Scalar int

record CAclouds3D =
  width :: int
  depth :: int
  height :: int
  x_coord :: "int tensor3"
  y_coord :: "int tensor3"
  z_coord :: "int tensor3"
  hum :: "u8 tensor3"
  act :: "u8 tensor3"
  cld :: "u8 tensor3"
  f_act :: "u8 tensor3"
  hum_temp :: "u8 tensor3"
  rnd_hum :: "int tensor3"
  rnd_act :: "int tensor3"
  rnd_ext :: "int tensor3"
  P_hum :: prob
  P_act :: "int tensor3"
  P_ext :: "int tensor3"
  act2 :: "u8 tensor3 option"

definition new_engine ::
  "int \<Rightarrow> int \<Rightarrow> int \<Rightarrow> int tensor3 \<times> int tensor3 \<times> int tensor3 \<Rightarrow> CAclouds3D" where
  \<comment> \<open>the attributes that the constructor sets, once the coordinate grids exist\<close>
  "new_engine w d h g =
     \<lparr> width = w, depth = d, height = h,
       x_coord = fst g, y_coord = fst (snd g), z_coord = snd (snd g),
       hum = zeros w d h, act = zeros w d h, cld = zeros w d h,
       f_act = zeros w d h, hum_temp = zeros w d h,
       rnd_hum = zeros w d h, rnd_act = zeros w d h, rnd_ext = zeros w d h,
       P_hum = Tensor (zeros w d h), P_act = zeros w d h, P_ext = zeros w d h,
       act2 = None \<rparr>"

definition CAclouds3D_init :: "int \<Rightarrow> int \<Rightarrow> int \<Rightarrow> error + CAclouds3D" where
  "CAclouds3D_init w d h =
     (case arange 0 w of
        Inl e \<Rightarrow> Inl e
      | Inr ax \<Rightarrow>
         (case arange 0 d of
            Inl e \<Rightarrow> Inl e
          | Inr ay \<Rightarrow>
             (case arange 0 h of
                Inl e \<Rightarrow> Inl e
              | Inr az \<Rightarrow> Inr (new_engine w d h (meshgrid ax ay az)))))"

subsection \<open>Elliptic seeding of the probability fields\<close>

text \<open>Every \<open>print\<close> of the seeding operation is a diagnostic.\<close>

datatype diagnostic =
    C_x_set_to int | C_y_set_to int | C_z_set_to int
  | F_x_ignored | F_y_ignored | F_z_ignored
  | P_hum0_set_to int | P_act0_set_to int | P_ext0_set_to int

definition clamp_c_x :: "CAclouds3D \<Rightarrow> int \<Rightarrow> int \<times> diagnostic list" where
  "clamp_c_x self c_x =
     (if c_x < 0 then (0, [C_x_set_to 0])
      else if c_x \<ge> width self then (width self - 1, [C_x_set_to (width self - 1)])
      else (c_x, []))"

definition clamp_c_y :: "CAclouds3D \<Rightarrow> int \<Rightarrow> int \<times> diagnostic list" where
  "clamp_c_y self c_y =
     (if c_y < 0 then (0, [C_y_set_to 0])
      else if c_y \<ge> width self then (depth self - 1, [C_y_set_to (depth self - 1)])
      else (c_y, []))"

definition clamp_c_z :: "CAclouds3D \<Rightarrow> int \<Rightarrow> int \<times> diagnostic list" where
  "clamp_c_z self c_z =
     (if c_z < 0 then (0, [C_z_set_to 0])
      else if c_z \<ge> width self then (height self - 1, [C_z_set_to (height self - 1)])
      else (c_z, []))"

text \<open>
  The stretch factors, the radius and the overlap are floating-point numbers, and the
  distance tensor has floating-point cells. Floating-point arithmetic belongs to the
  language and to the tensor library, so it is a parameter of the model: \<open>'s\<close> is the type
  of a number, \<open>'t\<close> the type of a cell of a floating-point tensor, and the record holds
  the operations that the seeding operation applies to them. Nothing is assumed of them.
\<close>

record ('s, 't) float_arith =
  zero_s :: 's
  one_s :: 's
  add_s :: "'s \<Rightarrow> 's \<Rightarrow> 's"
  sub_s :: "'s \<Rightarrow> 's \<Rightarrow> 's"
  less_s :: "'s \<Rightarrow> 's \<Rightarrow> bool"
  le_s :: "'s \<Rightarrow> 's \<Rightarrow> bool"
  div_int_s :: "int \<Rightarrow> 's \<Rightarrow> 't"
  add_t :: "'t \<Rightarrow> 't \<Rightarrow> 't"
  le_t_s :: "'t \<Rightarrow> 's \<Rightarrow> bool"
  gt_t_s :: "'t \<Rightarrow> 's \<Rightarrow> bool"

definition clamp_f :: "('s, 't) float_arith \<Rightarrow> diagnostic \<Rightarrow> 's \<Rightarrow> 's \<times> diagnostic list" where
  "clamp_f fa msg f = (if le_s fa f (zero_s fa) then (one_s fa, [msg]) else (f, []))"

definition clamp_P :: "(int \<Rightarrow> diagnostic) \<Rightarrow> int \<Rightarrow> int \<times> diagnostic list" where
  "clamp_P msg p =
     (if p < 0 then (0, [msg 0])
      else if p > 10000 then (10000, [msg 10000])
      else (p, []))"

definition clamp_overlap :: "('s, 't) float_arith \<Rightarrow> 's \<Rightarrow> 's" where
  "clamp_overlap fa overlap = (if less_s fa overlap (zero_s fa) then zero_s fa else overlap)"

definition distance ::
  "('s, 't) float_arith \<Rightarrow> CAclouds3D \<Rightarrow> int \<Rightarrow> int \<Rightarrow> int \<Rightarrow> 's \<Rightarrow> 's \<Rightarrow> 's \<Rightarrow> 't tensor3" where
  \<comment> \<open>\<open>(self.x-c_x)**2/f_x + (self.y-c_y)**2/f_y + (self.z-c_z)**2/f_z\<close>: the squares are
      integers, each quotient and each sum is floating point\<close>
  "distance fa self c_x c_y c_z f_x f_y f_z =
     ew2 (add_t fa)
       (ew2 (add_t fa) (map3 (\<lambda>v. div_int_s fa ((v - c_x)\<^sup>2) f_x) (x_coord self))
                       (map3 (\<lambda>v. div_int_s fa ((v - c_y)\<^sup>2) f_y) (y_coord self)))
       (map3 (\<lambda>v. div_int_s fa ((v - c_z)\<^sup>2) f_z) (z_coord self))"

definition masked_fill :: "'a tensor3 \<Rightarrow> bool tensor3 \<Rightarrow> 'a \<Rightarrow> 'a tensor3" where
  \<comment> \<open>\<open>t[sel] = v\<close> for a boolean tensor \<open>sel\<close>\<close>
  "masked_fill t sel v = ew2 (\<lambda>old m. if m then v else old) t sel"

definition init_elliptic_probabilities ::
  "('s, 't) float_arith \<Rightarrow> CAclouds3D \<Rightarrow> int \<Rightarrow> int \<Rightarrow> int \<Rightarrow> 's \<Rightarrow> 's \<Rightarrow> 's \<Rightarrow>
   int \<Rightarrow> int \<Rightarrow> int \<Rightarrow> 's \<Rightarrow> 's \<Rightarrow> CAclouds3D \<times> diagnostic list" where
  "init_elliptic_probabilities fa self c_x c_y c_z f_x f_y f_z P_hum0 P_act0 P_ext0
       radius overlap =
     (let overlap = clamp_overlap fa overlap;
          (c_x, m1) = clamp_c_x self c_x;
          (c_y, m2) = clamp_c_y self c_y;
          (c_z, m3) = clamp_c_z self c_z;
          (f_x, m4) = clamp_f fa F_x_ignored f_x;
          (f_y, m5) = clamp_f fa F_y_ignored f_y;
          (f_z, m6) = clamp_f fa F_z_ignored f_z;
          (P_hum0, m7) = clamp_P P_hum0_set_to P_hum0;
          (P_act0, m8) = clamp_P P_act0_set_to P_act0;
          (P_ext0, m9) = clamp_P P_ext0_set_to P_ext0;
          dist = distance fa self c_x c_y c_z f_x f_y f_z;
          sel_inner = map3 (\<lambda>v. le_t_s fa v (add_s fa radius overlap)) dist;
          sel_outer = map3 (\<lambda>v. gt_t_s fa v (sub_s fa radius overlap)) dist
      in (self\<lparr> P_hum := Scalar P_hum0,
                P_act := masked_fill (P_act self) sel_inner P_act0,
                P_ext := masked_fill (P_ext self) sel_outer P_ext0 \<rparr>,
          m1 @ m2 @ m3 @ m4 @ m5 @ m6 @ m7 @ m8 @ m9))"

subsection \<open>Growth\<close>

definition neighbour_activation :: "u8 tensor3 \<Rightarrow> u8 tensor3" where
  \<comment> \<open>the eleven shifted copies of \<open>act\<close>, joined by \<open>|\<close> from left to right\<close>
  "neighbour_activation a =
     foldl (ew2 (OR)) (shift0 (- 2) a)
       [shift0 (- 1) a, shift0 1 a, shift0 2 a,
        shift1 (- 2) a, shift1 (- 1) a, shift1 1 a,
        shift2 (- 2) a, shift2 (- 1) a, shift2 1 a, shift2 2 a]"

definition cloud_growth :: "CAclouds3D \<Rightarrow> CAclouds3D" where
  "cloud_growth self =
     (let s1 = self\<lparr> hum_temp := ew2 (AND) (hum self) (map3 NOT (act self)) \<rparr>;
          s2 = s1\<lparr> cld := ew2 (OR) (cld s1) (act s1) \<rparr>;
          s3 = s2\<lparr> f_act := neighbour_activation (act s2) \<rparr>;
          s4 = s3\<lparr> act := ew2 (AND) (ew2 (AND) (map3 NOT (act s3)) (hum s3)) (f_act s3) \<rparr>;
          s5 = s4\<lparr> act2 := Some (act s4) \<rparr>
      in s5\<lparr> hum := hum_temp s5 \<rparr>)"

subsection \<open>Formation and extinction\<close>

text \<open>
  The three random tensors are refilled in place on every call. The generator is a
  parameter: one function per tensor, giving the number drawn for each cell.
\<close>

type_synonym draw = "nat \<Rightarrow> nat \<Rightarrow> nat \<Rightarrow> int"

record draws =
  R_hum :: draw
  R_act :: draw
  R_ext :: draw

definition in_range :: "draw \<Rightarrow> bool" where
  \<comment> \<open>\<open>random_(0, 10001)\<close> draws from \<open>0, ..., 10000\<close>\<close>
  "in_range r \<longleftrightarrow> (\<forall>i j k. 0 \<le> r i j k \<and> r i j k \<le> 10000)"

definition valid_draws :: "draws \<Rightarrow> bool" where
  "valid_draws dr \<longleftrightarrow> in_range (R_hum dr) \<and> in_range (R_act dr) \<and> in_range (R_ext dr)"

definition random_fill :: "draw \<Rightarrow> int tensor3 \<Rightarrow> int tensor3" where
  "random_fill r t =
     map (\<lambda>i. map (\<lambda>j. map (\<lambda>k. r i j k) [0..<length (t ! i ! j)]) [0..<length (t ! i)])
       [0..<length t]"

definition lt_prob :: "int tensor3 \<Rightarrow> prob \<Rightarrow> bool tensor3" where
  \<comment> \<open>\<open>rnd < P\<close>, where \<open>P\<close> is a tensor or a number\<close>
  "lt_prob r P = (case P of Tensor t \<Rightarrow> ew2 (<) r t | Scalar v \<Rightarrow> map3 (\<lambda>a. a < v) r)"

definition cloud_FormationExtinction :: "draws \<Rightarrow> CAclouds3D \<Rightarrow> CAclouds3D" where
  "cloud_FormationExtinction dr self =
     (let s1 = self\<lparr> rnd_hum := random_fill (R_hum dr) (rnd_hum self) \<rparr>;
          s2 = s1\<lparr> rnd_act := random_fill (R_act dr) (rnd_act s1) \<rparr>;
          s3 = s2\<lparr> rnd_ext := random_fill (R_ext dr) (rnd_ext s2) \<rparr>;
          s4 = s3\<lparr> hum := ew2 (\<lambda>c b. c OR of_bool b) (hum s3) (lt_prob (rnd_hum s3) (P_hum s3)) \<rparr>;
          s5 = s4\<lparr> act := ew2 (\<lambda>c b. c OR of_bool b) (act s4) (ew2 (<) (rnd_act s4) (P_act s4)) \<rparr>
      in s5\<lparr> cld := ew2 (\<lambda>c b. c AND of_bool b) (cld s5) (ew2 (>) (rnd_ext s5) (P_ext s5)) \<rparr>)"

definition step :: "draws \<Rightarrow> CAclouds3D \<Rightarrow> CAclouds3D" where
  "step dr self = cloud_FormationExtinction dr (cloud_growth self)"

fun simulate :: "draws list \<Rightarrow> CAclouds3D \<Rightarrow> CAclouds3D" where
  \<comment> \<open>one iteration for each element of the list of draws\<close>
  "simulate [] self = self"
| "simulate (dr # ds) self = simulate ds (cloud_FormationExtinction dr (cloud_growth self))"

subsection \<open>Extraction of the cloud positions\<close>

definition select :: "'a list \<Rightarrow> bool list \<Rightarrow> 'a list" where
  \<comment> \<open>\<open>v[selection]\<close> for a boolean vector of the length of \<open>v\<close>\<close>
  "select v sel = map fst (filter snd (zip v sel))"

definition view3 :: "'a list \<Rightarrow> 'a list list" where
  \<comment> \<open>\<open>v.view(3, -1)\<close>: three rows of a third of the elements each\<close>
  "view3 v = (let n = length v div 3 in [take n v, take n (drop n v), take n (drop (2 * n) v)])"

definition transpose01 :: "'a list list \<Rightarrow> 'a list list" where
  \<comment> \<open>\<open>m.transpose(0, 1)\<close> of a matrix given by its rows\<close>
  "transpose01 rows =
     (case rows of [] \<Rightarrow> [] | r # _ \<Rightarrow> map (\<lambda>i. map (\<lambda>row. row ! i) rows) [0..<length r])"

definition get_cloud_positions :: "CAclouds3D \<Rightarrow> int list list" where
  "get_cloud_positions self =
     (let selection = map (\<lambda>c. c = 1) (flatten (cld self));
          xs = select (flatten (x_coord self)) selection;
          ys = select (flatten (y_coord self)) selection;
          zs = select (flatten (z_coord self)) selection
      in transpose01 (view3 (xs @ ys @ zs)))"

section \<open>Well-formed engines\<close>

definition has_shape :: "CAclouds3D \<Rightarrow> 'a tensor3 \<Rightarrow> bool" where
  "has_shape self g = shaped (nat (width self)) (nat (depth self)) (nat (height self)) g"

definition well_formed :: "CAclouds3D \<Rightarrow> bool" where
  "well_formed self \<longleftrightarrow>
     0 \<le> width self \<and> 0 \<le> depth self \<and> 0 \<le> height self \<and>
     (x_coord self, y_coord self, z_coord self) =
       meshgrid [0..width self - 1] [0..depth self - 1] [0..height self - 1] \<and>
     has_shape self (hum self) \<and> has_shape self (act self) \<and> has_shape self (cld self) \<and>
     has_shape self (rnd_hum self) \<and> has_shape self (rnd_act self) \<and>
     has_shape self (rnd_ext self) \<and>
     (case P_hum self of Tensor t \<Rightarrow> has_shape self t | Scalar v \<Rightarrow> True) \<and>
     has_shape self (P_act self) \<and> has_shape self (P_ext self)"

subsection \<open>Periodic indices and an example engine\<close>

definition pidx :: "nat \<Rightarrow> nat \<Rightarrow> int \<Rightarrow> nat" where
  \<comment> \<open>the index at offset \<open>s\<close> from \<open>i\<close> on a periodic axis of length \<open>n\<close>\<close>
  "pidx n i s = nat ((int i + s) mod int n)"

definition example_engine :: CAclouds3D where
  \<comment> \<open>a 2 x 2 x 2 engine: humid everywhere, active at (0,0,0), cloud at (0,0,0) and (1,1,1)\<close>
  "example_engine =
     (new_engine 2 2 2 (meshgrid [0, 1] [0, 1] [0, 1]))
       \<lparr> hum := [[[1, 1], [1, 1]], [[1, 1], [1, 1]]],
         act := [[[1, 0], [0, 0]], [[0, 0], [0, 0]]],
         cld := [[[1, 0], [0, 0]], [[0, 0], [0, 1]]] \<rparr>"

definition prob_at :: "prob \<Rightarrow> nat \<Rightarrow> nat \<Rightarrow> nat \<Rightarrow> int" where
  \<comment> \<open>the probability that a comparison with a random tensor reads at a cell\<close>
  "prob_at P i j k = (case P of Tensor t \<Rightarrow> cell t i j k | Scalar v \<Rightarrow> v)"

definition seeding_distance ::
  "('s, 't) float_arith \<Rightarrow> CAclouds3D \<Rightarrow> int \<Rightarrow> int \<Rightarrow> int \<Rightarrow> 's \<Rightarrow> 's \<Rightarrow> 's \<Rightarrow> 't tensor3" where
  \<comment> \<open>the distance tensor that a seeding call computes from its arguments\<close>
  "seeding_distance fa self c_x c_y c_z f_x f_y f_z =
     distance fa self (fst (clamp_c_x self c_x)) (fst (clamp_c_y self c_y))
       (fst (clamp_c_z self c_z)) (fst (clamp_f fa F_x_ignored f_x))
       (fst (clamp_f fa F_y_ignored f_y)) (fst (clamp_f fa F_z_ignored f_z))"

definition exact_arith :: "(real, real) float_arith" where
  \<comment> \<open>an arithmetic to evaluate examples with: on the small whole numbers of the examples
      below every floating-point operation is exact\<close>
  "exact_arith =
     \<lparr> zero_s = 0, one_s = 1, add_s = (+), sub_s = (-), less_s = (<), le_s = (\<le>),
       div_int_s = (\<lambda>n f. real_of_int n / f), add_t = (+), le_t_s = (\<le>), gt_t_s = (>) \<rparr>"

definition constant_draws :: "int \<Rightarrow> draws" where
  \<comment> \<open>a generator that gives the same number at every cell of the three tensors\<close>
  "constant_draws v = \<lparr> R_hum = (\<lambda>i j k. v), R_act = (\<lambda>i j k. v), R_ext = (\<lambda>i j k. v) \<rparr>"

definition uniform :: "'a tensor3 \<Rightarrow> 'a \<Rightarrow> bool" where
  \<comment> \<open>every cell of the tensor holds the value \<open>v\<close>\<close>
  "uniform g v \<longleftrightarrow> (\<forall>c \<in> set (flatten g). c = v)"

definition saturated_engine :: CAclouds3D where
  \<comment> \<open>the example engine with no active cell and extinction probability 10000 everywhere\<close>
  "saturated_engine =
     example_engine
       \<lparr> act := [[[0, 0], [0, 0]], [[0, 0], [0, 0]]],
         P_ext := [[[10000, 10000], [10000, 10000]], [[10000, 10000], [10000, 10000]]] \<rparr>"

definition cloudy_engine :: CAclouds3D where
  \<comment> \<open>the example engine with cloud everywhere; its extinction probability is 0 everywhere\<close>
  "cloudy_engine = example_engine \<lparr> cld := [[[1, 1], [1, 1]], [[1, 1], [1, 1]]] \<rparr>"

definition first_slab_zero :: draws where
  \<comment> \<open>a generator that draws 0 for the cells with first index 0 and 5000 for the others\<close>
  "first_slab_zero =
     \<lparr> R_hum = (\<lambda>i j k. 5000), R_act = (\<lambda>i j k. 5000),
       R_ext = (\<lambda>i j k. if i = 0 then 0 else 5000) \<rparr>"

definition count_true :: "u8 tensor3 \<Rightarrow> nat" where
  \<comment> \<open>the number of cells of a field that are set\<close>
  "count_true g = length (filter (\<lambda>c. c \<noteq> 0) (flatten g))"

definition zero_prob :: "prob \<Rightarrow> bool" where
  \<comment> \<open>a probability that is 0 at every cell, as a tensor or as a number\<close>
  "zero_prob P \<longleftrightarrow> (case P of Tensor t \<Rightarrow> uniform t 0 | Scalar v \<Rightarrow> v = 0)"

definition binary :: "u8 tensor3 \<Rightarrow> bool" where
  \<comment> \<open>every cell of the field is 0 or 1\<close>
  "binary g \<longleftrightarrow> (\<forall>c \<in> set (flatten g). c = 0 \<or> c = 1)"

text \<open>
  The calls that a client can make on an engine once it is constructed, with their
  arguments, and the state after a sequence of them.
\<close>

datatype 's call =
    Seed int int int 's 's 's int int int 's 's
  | Step draws

fun apply_call :: "('s, 't) float_arith \<Rightarrow> 's call \<Rightarrow> CAclouds3D \<Rightarrow> CAclouds3D" where
  "apply_call fa (Seed c_x c_y c_z f_x f_y f_z pHum pAct pExt radius overlap) self =
     fst (init_elliptic_probabilities fa self c_x c_y c_z f_x f_y f_z pHum pAct pExt
       radius overlap)"
| "apply_call fa (Step dr) self = step dr self"

definition run_calls :: "('s, 't) float_arith \<Rightarrow> 's call list \<Rightarrow> CAclouds3D \<Rightarrow> CAclouds3D" where
  "run_calls fa calls self = fold (apply_call fa) calls self"

definition cells :: "nat \<Rightarrow> nat \<Rightarrow> nat \<Rightarrow> (nat \<times> nat \<times> nat) list" where
  \<comment> \<open>the indices of a tensor of shape \<open>(w, d, h)\<close> in the order of \<open>flatten\<close>\<close>
  "cells w d h =
     concat (map (\<lambda>i. concat (map (\<lambda>j. map (\<lambda>k. (i, j, k)) [0..<h]) [0..<d])) [0..<w])"

section \<open>Cell-wise reading of tensor operations\<close>

lemma shaped_len0: "shaped w d h g \<Longrightarrow> length g = w"
  by (simp add: shaped_def)

lemma shaped_len1: "shaped w d h g \<Longrightarrow> i < w \<Longrightarrow> length (g ! i) = d"
  by (simp add: shaped_def)

lemma shaped_len2: "shaped w d h g \<Longrightarrow> i < w \<Longrightarrow> j < d \<Longrightarrow> length (g ! i ! j) = h"
  by (auto simp: shaped_def all_set_conv_all_nth)

lemmas shaped_len = shaped_len0 shaped_len1 shaped_len2

lemma shapedI:
  assumes "length g = w" "\<And>i. i < w \<Longrightarrow> length (g ! i) = d"
    "\<And>i j. i < w \<Longrightarrow> j < d \<Longrightarrow> length (g ! i ! j) = h"
  shows "shaped w d h g"
  using assms unfolding shaped_def by (auto simp: all_set_conv_all_nth)

lemma shaped_map3: "shaped w d h g \<Longrightarrow> shaped w d h (map3 f g)"
  unfolding shaped_def map3_def by auto

lemma cell_map3:
  "shaped w d h g \<Longrightarrow> i < w \<Longrightarrow> j < d \<Longrightarrow> k < h \<Longrightarrow> cell (map3 f g) i j k = f (cell g i j k)"
  by (simp add: cell_def map3_def shaped_len)

lemma shaped_ew2:
  assumes "shaped w d h a" "shaped w d h b"
  shows "shaped w d h (ew2 f a b)"
  using assms by (intro shapedI) (simp_all add: ew2_def shaped_len)

lemma cell_ew2:
  assumes "shaped w d h a" "shaped w d h b" "i < w" "j < d" "k < h"
  shows "cell (ew2 f a b) i j k = f (cell a i j k) (cell b i j k)"
  using assms by (simp add: ew2_def cell_def shaped_len)

lemma rot_nth:
  assumes "m \<le> length a" "i < length a"
  shows "(drop m a @ take m a) ! i = a ! ((i + m) mod length a)"
proof (cases "i < length a - m")
  case True
  then show ?thesis using assms by (simp add: nth_append add.commute)
next
  case False
  then have ge: "length a \<le> i + m" by simp
  have "i + m - length a < length a" using assms by simp
  with ge have "(i + m) mod length a = i + m - length a"
    by (simp add: le_mod_geq)
  moreover have "i - (length a - m) = i + m - length a"
    using assms False by simp
  ultimately show ?thesis using False assms by (simp add: nth_append)
qed

lemma py_bound_le: "py_bound s n \<le> n"
  by (auto simp: py_bound_def)

lemma py_bound_mod:
  assumes "i < n" "\<bar>s\<bar> \<le> 2"
  shows "(i + py_bound s n) mod n = pidx n i s"
proof (cases "n = 1")
  case True
  then show ?thesis by (simp add: pidx_def)
next
  case False
  with assms have n2: "2 \<le> n" by simp
  have "int ((i + py_bound s n) mod n) = (int i + s) mod int n"
  proof (cases "s < 0")
    case True
    then have "int (py_bound s n) = int n + s"
      using n2 assms(2) by (simp add: py_bound_def)
    then have "int (i + py_bound s n) = (int i + s) + int n" by simp
    then have "int ((i + py_bound s n) mod n) = ((int i + s) + int n) mod int n"
      by (simp only: zmod_int)
    then show ?thesis by (simp only: mod_add_self2)
  next
    case False
    then have "int (py_bound s n) = s"
      using n2 assms(2) by (simp add: py_bound_def)
    then show ?thesis by (simp add: zmod_int)
  qed
  then show ?thesis by (simp add: pidx_def)
qed

lemma pidx_less: "0 < n \<Longrightarrow> pidx n i s < n"
  by (simp add: pidx_def nat_less_iff)

lemma shift_nth:
  assumes "i < length a" "\<bar>s\<bar> \<le> 2"
  shows "(slice_from s a @ slice_to s a) ! i = a ! pidx (length a) i s"
  using rot_nth [OF py_bound_le assms(1), of s] py_bound_mod [OF assms]
  by (simp add: slice_from_def slice_to_def)

lemma shift_length: "length (slice_from s a @ slice_to s a) = length a"
  using py_bound_le [of s "length a"] by (simp add: slice_from_def slice_to_def)

lemma shift0_nth:
  assumes "shaped w d h a" "i < w" "\<bar>s\<bar> \<le> 2"
  shows "shift0 s a ! i = a ! pidx w i s"
  using shift_nth [of i a s] assms by (simp add: shift0_def shaped_len)

lemma shift1_nth:
  assumes "shaped w d h a" "i < w" "j < d" "\<bar>s\<bar> \<le> 2"
  shows "shift1 s a ! i ! j = a ! i ! pidx d j s"
  using shift_nth [of j "a ! i" s] assms by (simp add: shift1_def shaped_len)

lemma shift2_nth:
  assumes "shaped w d h a" "i < w" "j < d" "k < h" "\<bar>s\<bar> \<le> 2"
  shows "shift2 s a ! i ! j ! k = a ! i ! j ! pidx h k s"
  using shift_nth [of k "a ! i ! j" s] assms by (simp add: shift2_def shaped_len)

lemma shaped_shift0:
  assumes "shaped w d h a" "\<bar>s\<bar> \<le> 2"
  shows "shaped w d h (shift0 s a)"
proof (rule shapedI)
  show "length (shift0 s a) = w"
    using assms(1) shift_length [of s a] by (simp add: shift0_def shaped_len)
next
  fix i assume i: "i < w"
  then have p: "pidx w i s < w" by (simp add: pidx_less)
  show "length (shift0 s a ! i) = d"
    using assms i p by (simp add: shift0_nth shaped_len)
  fix j assume "j < d"
  then show "length (shift0 s a ! i ! j) = h"
    using assms i p by (simp add: shift0_nth shaped_len)
qed

lemma shaped_shift1:
  assumes "shaped w d h a" "\<bar>s\<bar> \<le> 2"
  shows "shaped w d h (shift1 s a)"
proof (rule shapedI)
  show "length (shift1 s a) = w"
    using assms(1) by (simp add: shift1_def shaped_len)
next
  fix i assume i: "i < w"
  show "length (shift1 s a ! i) = d"
    using assms i shift_length [of s "a ! i"] by (simp add: shift1_def shaped_len)
  fix j assume j: "j < d"
  then have p: "pidx d j s < d" by (simp add: pidx_less)
  show "length (shift1 s a ! i ! j) = h"
    using assms i j p by (simp add: shift1_nth shaped_len)
qed

lemma shaped_shift2:
  assumes "shaped w d h a" "\<bar>s\<bar> \<le> 2"
  shows "shaped w d h (shift2 s a)"
proof (rule shapedI)
  show "length (shift2 s a) = w"
    using assms(1) by (simp add: shift2_def shaped_len)
next
  fix i assume i: "i < w"
  show "length (shift2 s a ! i) = d"
    using assms i by (simp add: shift2_def shaped_len)
  fix j assume j: "j < d"
  show "length (shift2 s a ! i ! j) = h"
    using assms i j shift_length [of s "a ! i ! j"] by (simp add: shift2_def shaped_len)
qed

lemma cell_shift0:
  assumes "shaped w d h a" "i < w" "j < d" "k < h" "\<bar>s\<bar> \<le> 2"
  shows "cell (shift0 s a) i j k = cell a (pidx w i s) j k"
  using assms by (simp add: cell_def shift0_nth)

lemma cell_shift1:
  assumes "shaped w d h a" "i < w" "j < d" "k < h" "\<bar>s\<bar> \<le> 2"
  shows "cell (shift1 s a) i j k = cell a i (pidx d j s) k"
  using assms by (simp add: cell_def shift1_nth)

lemma cell_shift2:
  assumes "shaped w d h a" "i < w" "j < d" "k < h" "\<bar>s\<bar> \<le> 2"
  shows "cell (shift2 s a) i j k = cell a i j (pidx h k s)"
  using assms by (simp add: cell_def shift2_nth)

lemmas shaped_shift = shaped_shift0 shaped_shift1 shaped_shift2
lemmas cell_shift = cell_shift0 cell_shift1 cell_shift2

lemma shaped_neighbour_activation:
  assumes "shaped w d h a"
  shows "shaped w d h (neighbour_activation a)"
  using assms by (simp add: neighbour_activation_def shaped_ew2 shaped_shift)

lemma cell_neighbour_activation:
  assumes "shaped w d h a" "i < w" "j < d" "k < h"
  shows "cell (neighbour_activation a) i j k =
     cell a (pidx w i (- 2)) j k OR cell a (pidx w i (- 1)) j k OR
     cell a (pidx w i 1) j k OR cell a (pidx w i 2) j k OR
     cell a i (pidx d j (- 2)) k OR cell a i (pidx d j (- 1)) k OR
     cell a i (pidx d j 1) k OR
     cell a i j (pidx h k (- 2)) OR cell a i j (pidx h k (- 1)) OR
     cell a i j (pidx h k 1) OR cell a i j (pidx h k 2)"
proof -
  have join: "cell (ew2 (OR) u v) i j k = cell u i j k OR cell v i j k"
    if "shaped w d h u" "shaped w d h v" for u v :: "u8 tensor3"
    using that assms(2-4) by (rule cell_ew2)
  note sh = shaped_shift [OF assms(1)]
  note ce = cell_shift [OF assms]
  show ?thesis
    unfolding neighbour_activation_def
    by (simp add: join shaped_ew2 sh ce or.assoc)
qed

lemma cloud_growth_cld: "cld (cloud_growth self) = ew2 (OR) (cld self) (act self)"
  by (simp add: cloud_growth_def Let_def)

lemma cloud_growth_act:
  "act (cloud_growth self) =
     ew2 (AND) (ew2 (AND) (map3 NOT (act self)) (hum self)) (neighbour_activation (act self))"
  by (simp add: cloud_growth_def Let_def)

lemma cloud_growth_hum: "hum (cloud_growth self) = ew2 (AND) (hum self) (map3 NOT (act self))"
  by (simp add: cloud_growth_def Let_def)

lemma cloud_growth_frame:
  "width (cloud_growth self) = width self" "depth (cloud_growth self) = depth self"
  "height (cloud_growth self) = height self"
  "x_coord (cloud_growth self) = x_coord self" "y_coord (cloud_growth self) = y_coord self"
  "z_coord (cloud_growth self) = z_coord self"
  "rnd_hum (cloud_growth self) = rnd_hum self" "rnd_act (cloud_growth self) = rnd_act self"
  "rnd_ext (cloud_growth self) = rnd_ext self"
  "P_hum (cloud_growth self) = P_hum self" "P_act (cloud_growth self) = P_act self"
  "P_ext (cloud_growth self) = P_ext self"
  by (simp_all add: cloud_growth_def Let_def)

lemma well_formed_example_engine: "well_formed example_engine"
  by (simp add: well_formed_def has_shape_def shaped_def example_engine_def new_engine_def
      meshgrid_def zeros_def upto.simps)

section \<open>Growth\<close>

text \<open>
  Claim C1. Phase 1 of a step computes the three fields from the values before the step
  only. For every well-formed engine and every cell \<open>(i, j, k)\<close> of the grid: the new cloud
  is \<open>C0 OR A0\<close>; the new activation is \<open>(NOT A0) AND H0\<close> joined by \<open>AND\<close> with the
  \<open>OR\<close> of \<open>A0\<close> at the eleven periodic offsets (axis 1: -2, -1, +1, +2; axis 2: -2, -1, +1;
  axis 3: -2, -1, +1, +2), indices modulo the axis length; the new humidity is
  \<open>H0 AND (NOT A0)\<close>. Every right-hand side reads the fields of the engine before the
  call, so no field updated by the call is read by it.
\<close>

theorem growth_reads_snapshot:
  assumes "well_formed self" "i < nat (width self)" "j < nat (depth self)" "k < nat (height self)"
  shows "cell (cld (cloud_growth self)) i j k = cell (cld self) i j k OR cell (act self) i j k
    \<and> cell (act (cloud_growth self)) i j k =
        NOT (cell (act self) i j k) AND cell (hum self) i j k AND
        (cell (act self) (pidx (nat (width self)) i (- 2)) j k OR
         cell (act self) (pidx (nat (width self)) i (- 1)) j k OR
         cell (act self) (pidx (nat (width self)) i 1) j k OR
         cell (act self) (pidx (nat (width self)) i 2) j k OR
         cell (act self) i (pidx (nat (depth self)) j (- 2)) k OR
         cell (act self) i (pidx (nat (depth self)) j (- 1)) k OR
         cell (act self) i (pidx (nat (depth self)) j 1) k OR
         cell (act self) i j (pidx (nat (height self)) k (- 2)) OR
         cell (act self) i j (pidx (nat (height self)) k (- 1)) OR
         cell (act self) i j (pidx (nat (height self)) k 1) OR
         cell (act self) i j (pidx (nat (height self)) k 2))
    \<and> cell (hum (cloud_growth self)) i j k = cell (hum self) i j k AND NOT (cell (act self) i j k)"
proof -
  let ?w = "nat (width self)" and ?d = "nat (depth self)" and ?h = "nat (height self)"
  have H: "shaped ?w ?d ?h (hum self)" and A: "shaped ?w ?d ?h (act self)"
    and C: "shaped ?w ?d ?h (cld self)"
    using assms(1) by (simp_all add: well_formed_def has_shape_def)
  note idx = assms(2-4)
  have NA: "shaped ?w ?d ?h (map3 NOT (act self))" using A by (rule shaped_map3)
  have N: "shaped ?w ?d ?h (neighbour_activation (act self))"
    using A by (rule shaped_neighbour_activation)
  have NH: "shaped ?w ?d ?h (ew2 (AND) (map3 NOT (act self)) (hum self))"
    using NA H by (rule shaped_ew2)
  have c: "cell (cld (cloud_growth self)) i j k = cell (cld self) i j k OR cell (act self) i j k"
    by (simp add: cloud_growth_cld cell_ew2 [OF C A idx])
  have h: "cell (hum (cloud_growth self)) i j k = cell (hum self) i j k AND NOT (cell (act self) i j k)"
    by (simp add: cloud_growth_hum cell_ew2 [OF H NA idx] cell_map3 [OF A idx])
  have a: "cell (act (cloud_growth self)) i j k =
      (NOT (cell (act self) i j k) AND cell (hum self) i j k) AND
      cell (neighbour_activation (act self)) i j k"
    by (simp add: cloud_growth_act cell_ew2 [OF NH N idx] cell_ew2 [OF NA H idx]
        cell_map3 [OF A idx])
  show ?thesis
    using c h a by (simp add: cell_neighbour_activation [OF A idx] and.assoc)
qed

theorem growth_reads_snapshot_witness:
  "well_formed example_engine
   \<and> cell (cld (cloud_growth example_engine)) 1 0 0 = 0
   \<and> cell (act (cloud_growth example_engine)) 1 0 0 = 1
   \<and> cell (hum (cloud_growth example_engine)) 0 0 0 = 0"
proof -
  have dims: "nat (width example_engine) = 2" "nat (depth example_engine) = 2"
    "nat (height example_engine) = 2"
    by (simp_all add: example_engine_def new_engine_def)
  have a: "(1::nat) < nat (width example_engine)" "(0::nat) < nat (width example_engine)"
    "(0::nat) < nat (depth example_engine)" "(0::nat) < nat (height example_engine)"
    by (simp_all add: dims)
  have f: "hum example_engine = [[[1, 1], [1, 1]], [[1, 1], [1, 1]]]"
    "act example_engine = [[[1, 0], [0, 0]], [[0, 0], [0, 0]]]"
    "cld example_engine = [[[1, 0], [0, 0]], [[0, 0], [0, 1]]]"
    by (simp_all add: example_engine_def)
  show ?thesis
    using growth_reads_snapshot [OF well_formed_example_engine a(1) a(3) a(4)]
      growth_reads_snapshot [OF well_formed_example_engine a(2) a(3) a(4)]
    by (simp add: well_formed_example_engine dims f pidx_def cell_def)
qed

section \<open>Construction\<close>

lemma length_upto0: "length [0..n - 1] = nat n"
  by simp

lemma nth_upto0: "i < nat n \<Longrightarrow> [0..n - 1] ! i = int i"
  by simp

lemma shaped_zeros: "shaped (nat w) (nat d) (nat h) (zeros w d h)"
  by (simp add: shaped_def zeros_def)

lemma shaped_meshgrid:
  "shaped (length a) (length b) (length c) (fst (meshgrid a b c))"
  "shaped (length a) (length b) (length c) (fst (snd (meshgrid a b c)))"
  "shaped (length a) (length b) (length c) (snd (snd (meshgrid a b c)))"
  by (auto simp: shaped_def meshgrid_def)

lemma cell_meshgrid:
  assumes "i < length a" "j < length b" "k < length c"
  shows "cell (fst (meshgrid a b c)) i j k = a ! i"
    "cell (fst (snd (meshgrid a b c))) i j k = b ! j"
    "cell (snd (snd (meshgrid a b c))) i j k = c ! k"
  using assms by (simp_all add: cell_def meshgrid_def)

lemma well_formed_new_engine:
  assumes "0 \<le> w" "0 \<le> d" "0 \<le> h"
  shows "well_formed (new_engine w d h (meshgrid [0..w - 1] [0..d - 1] [0..h - 1]))"
  using assms
  by (simp add: well_formed_def has_shape_def new_engine_def shaped_zeros)

lemma CAclouds3D_init_ok:
  assumes "0 \<le> w" "0 \<le> d" "0 \<le> h"
  shows "CAclouds3D_init w d h =
    Inr (new_engine w d h (meshgrid [0..w - 1] [0..d - 1] [0..h - 1]))"
  using assms by (simp add: CAclouds3D_init_def arange_def)

lemma CAclouds3D_init_negative:
  assumes "w < 0 \<or> d < 0 \<or> h < 0"
  shows "CAclouds3D_init w d h = Inl RuntimeError"
  using assms by (auto simp: CAclouds3D_init_def arange_def)

text \<open>
  Claim C6, as the code has it. The constructor has no dimension check of its own and no
  \<open>InvalidDimension\<close> error: a negative dimension makes the tensor library refuse the
  coordinate range with its runtime error, and every dimension that is not negative, zero
  included, is accepted and gives a well-formed engine of that shape with all fields zero
  (an empty grid when a dimension is 0).
\<close>

theorem constructor_checks_no_dimension:
  "(w < 0 \<or> d < 0 \<or> h < 0 \<longrightarrow> CAclouds3D_init w d h = Inl RuntimeError)
   \<and> (0 \<le> w \<and> 0 \<le> d \<and> 0 \<le> h \<longrightarrow>
        (\<exists>self. CAclouds3D_init w d h = Inr self \<and> well_formed self
           \<and> width self = w \<and> depth self = d \<and> height self = h
           \<and> hum self = zeros w d h \<and> act self = zeros w d h \<and> cld self = zeros w d h))
   \<and> CAclouds3D_init w d h \<noteq> Inl InvalidDimension"
proof (intro conjI impI)
  assume "w < 0 \<or> d < 0 \<or> h < 0"
  then show "CAclouds3D_init w d h = Inl RuntimeError" by (rule CAclouds3D_init_negative)
next
  assume a: "0 \<le> w \<and> 0 \<le> d \<and> 0 \<le> h"
  then have "CAclouds3D_init w d h =
      Inr (new_engine w d h (meshgrid [0..w - 1] [0..d - 1] [0..h - 1]))"
    and "well_formed (new_engine w d h (meshgrid [0..w - 1] [0..d - 1] [0..h - 1]))"
    by (simp_all add: CAclouds3D_init_ok well_formed_new_engine)
  then show "\<exists>self. CAclouds3D_init w d h = Inr self \<and> well_formed self
           \<and> width self = w \<and> depth self = d \<and> height self = h
           \<and> hum self = zeros w d h \<and> act self = zeros w d h \<and> cld self = zeros w d h"
    by (simp add: new_engine_def)
next
  show "CAclouds3D_init w d h \<noteq> Inl InvalidDimension"
    by (cases "w < 0 \<or> d < 0 \<or> h < 0")
      (simp_all add: CAclouds3D_init_negative CAclouds3D_init_ok not_less)
qed

theorem constructor_checks_no_dimension_witness:
  "CAclouds3D_init (- 1) 2 2 = Inl RuntimeError
   \<and> CAclouds3D_init 2 2 0 \<noteq> Inl InvalidDimension
   \<and> (\<exists>self. CAclouds3D_init 2 2 0 = Inr self \<and> well_formed self \<and> height self = 0
        \<and> cld self = [[[], []], [[], []]])"
  using constructor_checks_no_dimension [of "- 1" 2 2]
    constructor_checks_no_dimension [of 2 2 0]
  by (auto simp: zeros_def numeral_2_eq_2)

text \<open>
  The claim as stated fails at width 0: construction succeeds with an empty grid.
\<close>

theorem zero_dimension_accepted:
  "CAclouds3D_init 0 1 1 = Inr (new_engine 0 1 1 (meshgrid [] [0] [0]))
   \<and> CAclouds3D_init 0 1 1 \<noteq> Inl InvalidDimension"
  by (simp add: CAclouds3D_init_def arange_def upto.simps)

section \<open>Clamping of the ellipse centre\<close>

text \<open>
  Claim C5 asks that \<open>c_y\<close> be clamped against the depth and \<open>c_z\<close> against the height.
  The upper bound of both is compared with the width. On a 10 x 5 x 5 grid the centre
  coordinate 7 on axis 2 or 3 is left as it is, outside \<open>[0, 4]\<close>, with no diagnostic;
  on a 5 x 10 x 10 grid the valid coordinate 7 on axis 2 is replaced by 9.
\<close>

theorem c_y_is_compared_with_width:
  "clamp_c_y (new_engine 10 5 5 (meshgrid [0..9] [0..4] [0..4])) 7 = (7, [])
   \<and> clamp_c_y (new_engine 5 10 10 (meshgrid [0..4] [0..9] [0..9])) 7 = (9, [C_y_set_to 9])
   \<and> clamp_c_z (new_engine 10 5 5 (meshgrid [0..9] [0..4] [0..4])) 7 = (7, [])"
  by (simp add: clamp_c_y_def clamp_c_z_def new_engine_def)

section \<open>Seeding of the probability fields\<close>

lemma example_engine_fields:
  "width example_engine = 2" "depth example_engine = 2" "height example_engine = 2"
  "hum example_engine = [[[1, 1], [1, 1]], [[1, 1], [1, 1]]]"
  "act example_engine = [[[1, 0], [0, 0]], [[0, 0], [0, 0]]]"
  "cld example_engine = [[[1, 0], [0, 0]], [[0, 0], [0, 1]]]"
  "P_act example_engine = [[[0, 0], [0, 0]], [[0, 0], [0, 0]]]"
  "P_ext example_engine = [[[0, 0], [0, 0]], [[0, 0], [0, 0]]]"
  "P_hum example_engine = Tensor [[[0, 0], [0, 0]], [[0, 0], [0, 0]]]"
  "rnd_hum example_engine = [[[0, 0], [0, 0]], [[0, 0], [0, 0]]]"
  "rnd_act example_engine = [[[0, 0], [0, 0]], [[0, 0], [0, 0]]]"
  "rnd_ext example_engine = [[[0, 0], [0, 0]], [[0, 0], [0, 0]]]"
  by (simp_all add: example_engine_def new_engine_def zeros_def numeral_2_eq_2)

lemma clamp_P_value: "fst (clamp_P msg p) = max 0 (min 10000 p)"
  by (simp add: clamp_P_def)

lemma seeding_P_hum:
  "P_hum (fst (init_elliptic_probabilities fa self c_x c_y c_z f_x f_y f_z pHum pAct pExt
      radius overlap)) = Scalar (max 0 (min 10000 pHum))"
  by (simp add: init_elliptic_probabilities_def Let_def case_prod_beta clamp_P_value)

lemma seeding_P_act:
  "P_act (fst (init_elliptic_probabilities fa self c_x c_y c_z f_x f_y f_z pHum pAct pExt
      radius overlap)) =
   masked_fill (P_act self)
     (map3 (\<lambda>v. le_t_s fa v (add_s fa radius (clamp_overlap fa overlap)))
        (seeding_distance fa self c_x c_y c_z f_x f_y f_z))
     (max 0 (min 10000 pAct))"
  by (simp add: init_elliptic_probabilities_def seeding_distance_def Let_def case_prod_beta
      clamp_P_value)

lemma seeding_P_ext:
  "P_ext (fst (init_elliptic_probabilities fa self c_x c_y c_z f_x f_y f_z pHum pAct pExt
      radius overlap)) =
   masked_fill (P_ext self)
     (map3 (\<lambda>v. gt_t_s fa v (sub_s fa radius (clamp_overlap fa overlap)))
        (seeding_distance fa self c_x c_y c_z f_x f_y f_z))
     (max 0 (min 10000 pExt))"
  by (simp add: init_elliptic_probabilities_def seeding_distance_def Let_def case_prod_beta
      clamp_P_value)

lemma seeding_frame:
  "width (fst (init_elliptic_probabilities fa self c_x c_y c_z f_x f_y f_z pHum pAct pExt
      radius overlap)) = width self"
  "depth (fst (init_elliptic_probabilities fa self c_x c_y c_z f_x f_y f_z pHum pAct pExt
      radius overlap)) = depth self"
  "height (fst (init_elliptic_probabilities fa self c_x c_y c_z f_x f_y f_z pHum pAct pExt
      radius overlap)) = height self"
  "x_coord (fst (init_elliptic_probabilities fa self c_x c_y c_z f_x f_y f_z pHum pAct pExt
      radius overlap)) = x_coord self"
  "y_coord (fst (init_elliptic_probabilities fa self c_x c_y c_z f_x f_y f_z pHum pAct pExt
      radius overlap)) = y_coord self"
  "z_coord (fst (init_elliptic_probabilities fa self c_x c_y c_z f_x f_y f_z pHum pAct pExt
      radius overlap)) = z_coord self"
  "hum (fst (init_elliptic_probabilities fa self c_x c_y c_z f_x f_y f_z pHum pAct pExt
      radius overlap)) = hum self"
  "act (fst (init_elliptic_probabilities fa self c_x c_y c_z f_x f_y f_z pHum pAct pExt
      radius overlap)) = act self"
  "cld (fst (init_elliptic_probabilities fa self c_x c_y c_z f_x f_y f_z pHum pAct pExt
      radius overlap)) = cld self"
  "rnd_hum (fst (init_elliptic_probabilities fa self c_x c_y c_z f_x f_y f_z pHum pAct pExt
      radius overlap)) = rnd_hum self"
  "rnd_act (fst (init_elliptic_probabilities fa self c_x c_y c_z f_x f_y f_z pHum pAct pExt
      radius overlap)) = rnd_act self"
  "rnd_ext (fst (init_elliptic_probabilities fa self c_x c_y c_z f_x f_y f_z pHum pAct pExt
      radius overlap)) = rnd_ext self"
  by (simp_all add: init_elliptic_probabilities_def Let_def case_prod_beta)

lemma well_formed_shapes:
  assumes "well_formed self"
  shows "shaped (nat (width self)) (nat (depth self)) (nat (height self)) (hum self)"
    "shaped (nat (width self)) (nat (depth self)) (nat (height self)) (act self)"
    "shaped (nat (width self)) (nat (depth self)) (nat (height self)) (cld self)"
    "shaped (nat (width self)) (nat (depth self)) (nat (height self)) (rnd_hum self)"
    "shaped (nat (width self)) (nat (depth self)) (nat (height self)) (rnd_act self)"
    "shaped (nat (width self)) (nat (depth self)) (nat (height self)) (rnd_ext self)"
    "shaped (nat (width self)) (nat (depth self)) (nat (height self)) (P_act self)"
    "shaped (nat (width self)) (nat (depth self)) (nat (height self)) (P_ext self)"
  using assms by (simp_all add: well_formed_def has_shape_def)

lemma well_formed_coords:
  assumes "well_formed self"
  shows "x_coord self = fst (meshgrid [0..width self - 1] [0..depth self - 1] [0..height self - 1])"
    "y_coord self = fst (snd (meshgrid [0..width self - 1] [0..depth self - 1] [0..height self - 1]))"
    "z_coord self = snd (snd (meshgrid [0..width self - 1] [0..depth self - 1] [0..height self - 1]))"
proof -
  have "(x_coord self, y_coord self, z_coord self) =
      meshgrid [0..width self - 1] [0..depth self - 1] [0..height self - 1]"
    using assms by (simp add: well_formed_def)
  then show "x_coord self = fst (meshgrid [0..width self - 1] [0..depth self - 1] [0..height self - 1])"
    "y_coord self = fst (snd (meshgrid [0..width self - 1] [0..depth self - 1] [0..height self - 1]))"
    "z_coord self = snd (snd (meshgrid [0..width self - 1] [0..depth self - 1] [0..height self - 1]))"
    by (metis fst_conv, metis fst_conv snd_conv, metis snd_conv)
qed

lemma well_formed_coord_shapes:
  assumes "well_formed self"
  shows "shaped (nat (width self)) (nat (depth self)) (nat (height self)) (x_coord self)"
    "shaped (nat (width self)) (nat (depth self)) (nat (height self)) (y_coord self)"
    "shaped (nat (width self)) (nat (depth self)) (nat (height self)) (z_coord self)"
  using shaped_meshgrid [of "[0..width self - 1]" "[0..depth self - 1]" "[0..height self - 1]"]
  by (simp_all add: well_formed_coords [OF assms])

lemma well_formed_coord_cells:
  assumes "well_formed self" "i < nat (width self)" "j < nat (depth self)" "k < nat (height self)"
  shows "cell (x_coord self) i j k = int i" "cell (y_coord self) i j k = int j"
    "cell (z_coord self) i j k = int k"
  using assms(2-4)
    cell_meshgrid [of i "[0..width self - 1]" j "[0..depth self - 1]" k "[0..height self - 1]"]
  by (simp_all add: well_formed_coords [OF assms(1)])


lemma shaped_distance:
  assumes "well_formed self"
  shows "shaped (nat (width self)) (nat (depth self)) (nat (height self))
    (distance fa self cx cy cz fx fy fz)"
  unfolding distance_def
  by (intro shaped_ew2 shaped_map3 well_formed_coord_shapes [OF assms])


lemma shaped_masked_fill:
  assumes "shaped w d h t" "shaped w d h sel"
  shows "shaped w d h (masked_fill t sel v)"
  unfolding masked_fill_def using assms by (rule shaped_ew2)

lemma FE_frame:
  "width (cloud_FormationExtinction dr self) = width self"
  "depth (cloud_FormationExtinction dr self) = depth self"
  "height (cloud_FormationExtinction dr self) = height self"
  "x_coord (cloud_FormationExtinction dr self) = x_coord self"
  "y_coord (cloud_FormationExtinction dr self) = y_coord self"
  "z_coord (cloud_FormationExtinction dr self) = z_coord self"
  "P_hum (cloud_FormationExtinction dr self) = P_hum self"
  "P_act (cloud_FormationExtinction dr self) = P_act self"
  "P_ext (cloud_FormationExtinction dr self) = P_ext self"
  by (simp_all add: cloud_FormationExtinction_def Let_def)

lemma step_frame:
  "P_act (step dr self) = P_act self" "P_ext (step dr self) = P_ext self"
  "P_hum (step dr self) = P_hum self"
  "width (step dr self) = width self" "depth (step dr self) = depth self"
  "height (step dr self) = height self"
  "x_coord (step dr self) = x_coord self" "y_coord (step dr self) = y_coord self"
  "z_coord (step dr self) = z_coord self"
  by (simp_all add: step_def FE_frame cloud_growth_frame)

lemma simulate_step: "simulate (dr # ds) self = simulate ds (step dr self)"
  by (simp add: step_def)




text \<open>
  Claim C4. After a seeding call the humidity probability read at every cell, whatever the
  indices and whatever the masks, is the clamped \<open>pHum\<close>; after a second call it is the
  clamped \<open>pHum\<close> of the second call. The comparison of a random tensor with \<open>P_hum\<close>
  compares every cell with that one number.
\<close>

theorem humidity_probability_is_global:
  "prob_at (P_hum (fst (init_elliptic_probabilities fa self c_x c_y c_z f_x f_y f_z
       pHum pAct pExt radius overlap))) i j k = max 0 (min 10000 pHum)
   \<and> prob_at (P_hum (fst (init_elliptic_probabilities fa
       (fst (init_elliptic_probabilities fa self c_x c_y c_z f_x f_y f_z
          pHum pAct pExt radius overlap))
       c_x' c_y' c_z' f_x' f_y' f_z' pHum' pAct' pExt' radius' overlap'))) i j k =
     max 0 (min 10000 pHum')
   \<and> lt_prob r (P_hum (fst (init_elliptic_probabilities fa self c_x c_y c_z f_x f_y f_z
       pHum pAct pExt radius overlap))) = map3 (\<lambda>a. a < max 0 (min 10000 pHum)) r"
  by (simp add: seeding_P_hum prob_at_def lt_prob_def)

theorem humidity_probability_is_global_witness:
  "prob_at (P_hum (fst (init_elliptic_probabilities exact_arith example_engine
       0 0 0 1 1 1 (- 5) 7 9 1 0))) 1 1 1 = 0
   \<and> prob_at (P_hum (fst (init_elliptic_probabilities exact_arith
       (fst (init_elliptic_probabilities exact_arith example_engine 0 0 0 1 1 1 (- 5) 7 9 1 0))
       1 1 1 1 1 1 99999 7 9 1 0))) 0 1 0 = 10000"
  using humidity_probability_is_global [where fa = exact_arith and self = example_engine
      and c_x = 0 and c_y = 0 and c_z = 0 and f_x = 1 and f_y = 1 and f_z = 1
      and pHum = "- 5" and pAct = 7 and pExt = 9 and radius = 1 and overlap = 0
      and c_x' = 1 and c_y' = 1 and c_z' = 1 and f_x' = 1 and f_y' = 1 and f_z' = 1
      and pHum' = 99999 and pAct' = 7 and pExt' = 9 and radius' = 1 and overlap' = 0
      and i = 1 and j = 1 and k = 1]
    humidity_probability_is_global [where fa = exact_arith and self = example_engine
      and c_x = 0 and c_y = 0 and c_z = 0 and f_x = 1 and f_y = 1 and f_z = 1
      and pHum = "- 5" and pAct = 7 and pExt = 9 and radius = 1 and overlap = 0
      and c_x' = 1 and c_y' = 1 and c_z' = 1 and f_x' = 1 and f_y' = 1 and f_z' = 1
      and pHum' = 99999 and pAct' = 7 and pExt' = 9 and radius' = 1 and overlap' = 0
      and i = 0 and j = 1 and k = 0]
  by simp

section \<open>Formation and extinction\<close>

lemma shaped_random_fill: "shaped w d h t \<Longrightarrow> shaped w d h (random_fill r t)"
  by (rule shapedI) (simp_all add: random_fill_def shaped_len)

lemma cell_random_fill:
  "shaped w d h t \<Longrightarrow> i < w \<Longrightarrow> j < d \<Longrightarrow> k < h \<Longrightarrow> cell (random_fill r t) i j k = r i j k"
  by (simp add: random_fill_def cell_def shaped_len)

lemma FE_hum:
  "hum (cloud_FormationExtinction dr self) =
     ew2 (\<lambda>c b. c OR of_bool b) (hum self)
       (lt_prob (random_fill (R_hum dr) (rnd_hum self)) (P_hum self))"
  by (simp add: cloud_FormationExtinction_def Let_def)

lemma FE_act:
  "act (cloud_FormationExtinction dr self) =
     ew2 (\<lambda>c b. c OR of_bool b) (act self)
       (ew2 (<) (random_fill (R_act dr) (rnd_act self)) (P_act self))"
  by (simp add: cloud_FormationExtinction_def Let_def)

lemma FE_cld:
  "cld (cloud_FormationExtinction dr self) =
     ew2 (\<lambda>c b. c AND of_bool b) (cld self)
       (ew2 (>) (random_fill (R_ext dr) (rnd_ext self)) (P_ext self))"
  by (simp add: cloud_FormationExtinction_def Let_def)

lemma FE_rnd:
  "rnd_hum (cloud_FormationExtinction dr self) = random_fill (R_hum dr) (rnd_hum self)"
  "rnd_act (cloud_FormationExtinction dr self) = random_fill (R_act dr) (rnd_act self)"
  "rnd_ext (cloud_FormationExtinction dr self) = random_fill (R_ext dr) (rnd_ext self)"
  by (simp_all add: cloud_FormationExtinction_def Let_def)

lemma well_formed_P_hum:
  assumes "well_formed self" "P_hum self = Tensor t"
  shows "shaped (nat (width self)) (nat (depth self)) (nat (height self)) t"
  using assms by (simp add: well_formed_def has_shape_def)

lemma shaped_lt_prob:
  assumes "shaped w d h r" "\<And>t. P = Tensor t \<Longrightarrow> shaped w d h t"
  shows "shaped w d h (lt_prob r P)"
  using assms by (cases P) (simp_all add: lt_prob_def shaped_ew2 shaped_map3)

lemma cell_lt_prob:
  assumes "shaped w d h r" "\<And>t. P = Tensor t \<Longrightarrow> shaped w d h t" "i < w" "j < d" "k < h"
  shows "cell (lt_prob r P) i j k \<longleftrightarrow> cell r i j k < prob_at P i j k"
proof (cases P)
  case (Tensor t)
  then have "shaped w d h t" by (rule assms(2))
  then show ?thesis
    using Tensor assms(1,3-5) by (simp add: lt_prob_def prob_at_def cell_ew2)
next
  case (Scalar v)
  then show ?thesis
    using assms(1,3-5) by (simp add: lt_prob_def prob_at_def cell_map3)
qed

lemma well_formed_cloud_growth:
  assumes "well_formed self"
  shows "well_formed (cloud_growth self)"
proof -
  note s = well_formed_shapes [OF assms]
  have "shaped (nat (width self)) (nat (depth self)) (nat (height self)) (hum (cloud_growth self))"
    unfolding cloud_growth_hum by (intro shaped_ew2 shaped_map3 s)
  moreover have "shaped (nat (width self)) (nat (depth self)) (nat (height self))
      (act (cloud_growth self))"
    unfolding cloud_growth_act
    by (intro shaped_ew2 shaped_map3 shaped_neighbour_activation s)
  moreover have "shaped (nat (width self)) (nat (depth self)) (nat (height self))
      (cld (cloud_growth self))"
    unfolding cloud_growth_cld by (intro shaped_ew2 s)
  ultimately show ?thesis
    using assms
    by (simp add: well_formed_def has_shape_def cloud_growth_frame split: prob.splits)
qed

lemma well_formed_FE:
  assumes "well_formed self"
  shows "well_formed (cloud_FormationExtinction dr self)"
proof -
  note s = well_formed_shapes [OF assms]
  have P: "shaped (nat (width self)) (nat (depth self)) (nat (height self)) t"
    if "P_hum self = Tensor t" for t
    using assms that by (rule well_formed_P_hum)
  have "shaped (nat (width self)) (nat (depth self)) (nat (height self))
      (hum (cloud_FormationExtinction dr self))"
    unfolding FE_hum by (intro shaped_ew2 shaped_lt_prob shaped_random_fill s P)
  moreover have "shaped (nat (width self)) (nat (depth self)) (nat (height self))
      (act (cloud_FormationExtinction dr self))"
    unfolding FE_act by (intro shaped_ew2 shaped_random_fill s)
  moreover have "shaped (nat (width self)) (nat (depth self)) (nat (height self))
      (cld (cloud_FormationExtinction dr self))"
    unfolding FE_cld by (intro shaped_ew2 shaped_random_fill s)
  moreover have "shaped (nat (width self)) (nat (depth self)) (nat (height self))
      (random_fill (R_hum dr) (rnd_hum self))"
    "shaped (nat (width self)) (nat (depth self)) (nat (height self))
      (random_fill (R_act dr) (rnd_act self))"
    "shaped (nat (width self)) (nat (depth self)) (nat (height self))
      (random_fill (R_ext dr) (rnd_ext self))"
    by (intro shaped_random_fill s)+
  ultimately show ?thesis
    using assms
    by (simp add: well_formed_def has_shape_def FE_frame FE_rnd split: prob.splits)
qed

lemma well_formed_step: "well_formed self \<Longrightarrow> well_formed (step dr self)"
  unfolding step_def by (intro well_formed_FE well_formed_cloud_growth)

lemma well_formed_simulate: "well_formed self \<Longrightarrow> well_formed (simulate ds self)"
  by (induction ds arbitrary: self) (simp_all only: simulate.simps(1) simulate_step well_formed_step)

lemma cell_FE:
  assumes "well_formed self" "i < nat (width self)" "j < nat (depth self)" "k < nat (height self)"
  shows "cell (hum (cloud_FormationExtinction dr self)) i j k =
           cell (hum self) i j k OR of_bool (R_hum dr i j k < prob_at (P_hum self) i j k)"
    "cell (act (cloud_FormationExtinction dr self)) i j k =
           cell (act self) i j k OR of_bool (R_act dr i j k < cell (P_act self) i j k)"
    "cell (cld (cloud_FormationExtinction dr self)) i j k =
           cell (cld self) i j k AND of_bool (R_ext dr i j k > cell (P_ext self) i j k)"
    "cell (rnd_hum (cloud_FormationExtinction dr self)) i j k = R_hum dr i j k"
    "cell (rnd_act (cloud_FormationExtinction dr self)) i j k = R_act dr i j k"
    "cell (rnd_ext (cloud_FormationExtinction dr self)) i j k = R_ext dr i j k"
proof -
  note idx = assms(2-4)
  note s = well_formed_shapes [OF assms(1)]
  have P: "shaped (nat (width self)) (nat (depth self)) (nat (height self)) t"
    if "P_hum self = Tensor t" for t
    using assms(1) that by (rule well_formed_P_hum)
  note rh = shaped_random_fill [OF s(4), of "R_hum dr"]
  note ra = shaped_random_fill [OF s(5), of "R_act dr"]
  note re = shaped_random_fill [OF s(6), of "R_ext dr"]
  have lh: "shaped (nat (width self)) (nat (depth self)) (nat (height self))
      (lt_prob (random_fill (R_hum dr) (rnd_hum self)) (P_hum self))"
    using rh P by (rule shaped_lt_prob)
  have la: "shaped (nat (width self)) (nat (depth self)) (nat (height self))
      (ew2 (<) (random_fill (R_act dr) (rnd_act self)) (P_act self))"
    using ra s(7) by (rule shaped_ew2)
  have le: "shaped (nat (width self)) (nat (depth self)) (nat (height self))
      (ew2 (>) (random_fill (R_ext dr) (rnd_ext self)) (P_ext self))"
    using re s(8) by (rule shaped_ew2)
  show "cell (hum (cloud_FormationExtinction dr self)) i j k =
           cell (hum self) i j k OR of_bool (R_hum dr i j k < prob_at (P_hum self) i j k)"
    by (simp only: FE_hum cell_ew2 [OF s(1) lh idx] cell_lt_prob [OF rh P idx]
        cell_random_fill [OF s(4) idx])
  show "cell (act (cloud_FormationExtinction dr self)) i j k =
           cell (act self) i j k OR of_bool (R_act dr i j k < cell (P_act self) i j k)"
    by (simp only: FE_act cell_ew2 [OF s(2) la idx] cell_ew2 [OF ra s(7) idx]
        cell_random_fill [OF s(5) idx])
  show "cell (cld (cloud_FormationExtinction dr self)) i j k =
           cell (cld self) i j k AND of_bool (R_ext dr i j k > cell (P_ext self) i j k)"
    by (simp only: FE_cld cell_ew2 [OF s(3) le idx] cell_ew2 [OF re s(8) idx]
        cell_random_fill [OF s(6) idx])
  show "cell (rnd_hum (cloud_FormationExtinction dr self)) i j k = R_hum dr i j k"
    "cell (rnd_act (cloud_FormationExtinction dr self)) i j k = R_act dr i j k"
    "cell (rnd_ext (cloud_FormationExtinction dr self)) i j k = R_ext dr i j k"
    by (simp_all only: FE_rnd cell_random_fill [OF s(4) idx] cell_random_fill [OF s(5) idx]
        cell_random_fill [OF s(6) idx])
qed

lemma cell_step:
  assumes "well_formed self" "i < nat (width self)" "j < nat (depth self)" "k < nat (height self)"
  shows "cell (hum (step dr self)) i j k =
           cell (hum (cloud_growth self)) i j k
             OR of_bool (R_hum dr i j k < prob_at (P_hum self) i j k)"
    "cell (act (step dr self)) i j k =
           cell (act (cloud_growth self)) i j k
             OR of_bool (R_act dr i j k < cell (P_act self) i j k)"
    "cell (cld (step dr self)) i j k =
           cell (cld (cloud_growth self)) i j k
             AND of_bool (R_ext dr i j k > cell (P_ext self) i j k)"
    "cell (rnd_hum (step dr self)) i j k = R_hum dr i j k"
    "cell (rnd_act (step dr self)) i j k = R_act dr i j k"
    "cell (rnd_ext (step dr self)) i j k = R_ext dr i j k"
proof -
  have idx: "i < nat (width (cloud_growth self))" "j < nat (depth (cloud_growth self))"
    "k < nat (height (cloud_growth self))"
    using assms(2-4) by (simp_all only: cloud_growth_frame)
  note fe = cell_FE [OF well_formed_cloud_growth [OF assms(1)] idx, of dr]
  show "cell (hum (step dr self)) i j k =
           cell (hum (cloud_growth self)) i j k
             OR of_bool (R_hum dr i j k < prob_at (P_hum self) i j k)"
    "cell (act (step dr self)) i j k =
           cell (act (cloud_growth self)) i j k
             OR of_bool (R_act dr i j k < cell (P_act self) i j k)"
    "cell (cld (step dr self)) i j k =
           cell (cld (cloud_growth self)) i j k
             AND of_bool (R_ext dr i j k > cell (P_ext self) i j k)"
    "cell (rnd_hum (step dr self)) i j k = R_hum dr i j k"
    "cell (rnd_act (step dr self)) i j k = R_act dr i j k"
    "cell (rnd_ext (step dr self)) i j k = R_ext dr i j k"
    using fe by (simp_all only: step_def cloud_growth_frame)
qed

lemma cell_growth:
  assumes "well_formed self" "i < nat (width self)" "j < nat (depth self)" "k < nat (height self)"
  shows "cell (hum (cloud_growth self)) i j k = cell (hum self) i j k AND NOT (cell (act self) i j k)"
    "cell (cld (cloud_growth self)) i j k = cell (cld self) i j k OR cell (act self) i j k"
proof -
  note idx = assms(2-4)
  note s = well_formed_shapes [OF assms(1)]
  show "cell (hum (cloud_growth self)) i j k = cell (hum self) i j k AND NOT (cell (act self) i j k)"
    by (simp only: cloud_growth_hum cell_ew2 [OF s(1) shaped_map3 [OF s(2)] idx]
        cell_map3 [OF s(2) idx])
  show "cell (cld (cloud_growth self)) i j k = cell (cld self) i j k OR cell (act self) i j k"
    by (simp only: cloud_growth_cld cell_ew2 [OF s(3) s(2) idx])
qed

lemma and_of_bool_nonzero: "(c :: u8) AND of_bool b \<noteq> 0 \<Longrightarrow> b"
  by (cases b) simp_all

text \<open>
  Claim C2. On a well-formed engine, at every cell, a step leaves in \<open>hum\<close> the humidity that
  growth has committed joined with \<open>R_hum < P_hum\<close>, in \<open>act\<close> the activation that growth has
  committed joined with \<open>R_act < P_act\<close>, and in \<open>cld\<close> the cloud that growth has committed
  met with \<open>R_ext > P_ext\<close>, so a cell that is cloud after the step has drawn a number strictly
  above its extinction probability. The numbers compared are those drawn in this call: the
  three random tensors hold them afterwards, and all three are filled before the first
  field is updated, whatever the numbers are (in particular for numbers from 0 to 10000).
\<close>

theorem formation_extinction_updates:
  assumes "well_formed self" "i < nat (width self)" "j < nat (depth self)" "k < nat (height self)"
  shows "cell (hum (step dr self)) i j k =
           cell (hum (cloud_growth self)) i j k
             OR of_bool (R_hum dr i j k < prob_at (P_hum self) i j k)
       \<and> cell (act (step dr self)) i j k =
           cell (act (cloud_growth self)) i j k
             OR of_bool (R_act dr i j k < cell (P_act self) i j k)
       \<and> cell (cld (step dr self)) i j k =
           cell (cld (cloud_growth self)) i j k
             AND of_bool (R_ext dr i j k > cell (P_ext self) i j k)
       \<and> (cell (cld (step dr self)) i j k \<noteq> 0 \<longrightarrow> R_ext dr i j k > cell (P_ext self) i j k)
       \<and> cell (rnd_hum (step dr self)) i j k = R_hum dr i j k
       \<and> cell (rnd_act (step dr self)) i j k = R_act dr i j k
       \<and> cell (rnd_ext (step dr self)) i j k = R_ext dr i j k
       \<and> step dr self = cloud_FormationExtinction dr (cloud_growth self)
       \<and> hum (cloud_FormationExtinction dr self) =
           ew2 (\<lambda>c b. c OR of_bool b) (hum self)
             (lt_prob (random_fill (R_hum dr) (rnd_hum self)) (P_hum self))
       \<and> act (cloud_FormationExtinction dr self) =
           ew2 (\<lambda>c b. c OR of_bool b) (act self)
             (ew2 (<) (random_fill (R_act dr) (rnd_act self)) (P_act self))
       \<and> cld (cloud_FormationExtinction dr self) =
           ew2 (\<lambda>c b. c AND of_bool b) (cld self)
             (ew2 (>) (random_fill (R_ext dr) (rnd_ext self)) (P_ext self))"
proof -
  note c = cell_step [OF assms, of dr]
  have "cell (cld (step dr self)) i j k \<noteq> 0 \<longrightarrow> R_ext dr i j k > cell (P_ext self) i j k"
    unfolding c(3) by (rule impI) (rule and_of_bool_nonzero)
  then show ?thesis
    using c by (simp only: FE_hum FE_act FE_cld step_def simp_thms)
qed

theorem formation_extinction_updates_witness:
  "well_formed example_engine
   \<and> cell (hum (step (constant_draws 5000) example_engine)) 0 0 0 = 0
   \<and> cell (act (step (constant_draws 5000) example_engine)) 0 0 0 = 0
   \<and> cell (cld (step (constant_draws 5000) example_engine)) 0 0 0 = 1
   \<and> cell (rnd_ext (step (constant_draws 5000) example_engine)) 0 0 0 = 5000"
proof -
  have a: "(0::nat) < nat (width example_engine)" "(0::nat) < nat (depth example_engine)"
    "(0::nat) < nat (height example_engine)"
    by (simp_all add: example_engine_fields)
  note s = well_formed_shapes [OF well_formed_example_engine]
  have g: "cell (hum (cloud_growth example_engine)) 0 0 0 = 0"
    "cell (cld (cloud_growth example_engine)) 0 0 0 = 1"
    by (simp_all add: cloud_growth_hum cloud_growth_cld example_engine_fields
        cell_def ew2_def map3_def)
  have "cell (act (cloud_growth example_engine)) 0 0 0 =
      (NOT (cell (act example_engine) 0 0 0) AND cell (hum example_engine) 0 0 0)
        AND cell (neighbour_activation (act example_engine)) 0 0 0"
    by (simp only: cloud_growth_act
        cell_ew2 [OF shaped_ew2 [OF shaped_map3 [OF s(2)] s(1)]
          shaped_neighbour_activation [OF s(2)] a]
        cell_ew2 [OF shaped_map3 [OF s(2)] s(1) a] cell_map3 [OF s(2) a])
  then have g': "cell (act (cloud_growth example_engine)) 0 0 0 = 0"
    by (simp add: example_engine_fields(4,5) cell_def)
  have p: "prob_at (P_hum example_engine) 0 0 0 = 0" "cell (P_act example_engine) 0 0 0 = 0"
    "cell (P_ext example_engine) 0 0 0 = 0"
    by (simp_all add: example_engine_fields prob_at_def cell_def)
  note t = formation_extinction_updates [OF well_formed_example_engine a,
      where dr = "constant_draws 5000"]
  show ?thesis
    using t [THEN conjunct1] t [THEN conjunct2, THEN conjunct1]
      t [THEN conjunct2, THEN conjunct2, THEN conjunct1]
      t [THEN conjunct2, THEN conjunct2, THEN conjunct2, THEN conjunct2, THEN conjunct2,
        THEN conjunct2, THEN conjunct1]
    by (simp add: g g' p well_formed_example_engine constant_draws_def)
qed

section \<open>The boundary values of the extinction probability\<close>

lemma cell_in_flatten:
  assumes "shaped w d h g" "i < w" "j < d" "k < h"
  shows "cell g i j k \<in> set (flatten g)"
proof -
  have "g ! i \<in> set g"
    using assms(1,2) by (simp add: shaped_len0)
  moreover have "g ! i ! j \<in> set (g ! i)"
    using assms(1-3) by (simp add: shaped_len1)
  moreover have "g ! i ! j ! k \<in> set (g ! i ! j)"
    using assms by (simp add: shaped_len2)
  ultimately show ?thesis
    unfolding flatten_def cell_def by auto
qed

lemma uniform_cell:
  assumes "uniform g v" "shaped w d h g" "i < w" "j < d" "k < h"
  shows "cell g i j k = v"
  using assms(1) cell_in_flatten [OF assms(2-5)] by (simp add: uniform_def)

lemma one_or_and_of_bool: "((1 :: u8) OR a) AND of_bool b = of_bool b"
  by (cases b) (simp_all add: and_one_eq mod_2_eq_odd even_or_iff)

lemma well_formed_saturated_engine: "well_formed saturated_engine"
  by (simp add: well_formed_def has_shape_def shaped_def saturated_engine_def example_engine_def
      new_engine_def meshgrid_def zeros_def upto.simps)

lemma well_formed_cloudy_engine: "well_formed cloudy_engine"
  by (simp add: well_formed_def has_shape_def shaped_def cloudy_engine_def example_engine_def
      new_engine_def meshgrid_def zeros_def upto.simps)

lemma saturated_engine_fields:
  "width saturated_engine = 2" "depth saturated_engine = 2" "height saturated_engine = 2"
  "act saturated_engine = [[[0, 0], [0, 0]], [[0, 0], [0, 0]]]"
  "cld saturated_engine = [[[1, 0], [0, 0]], [[0, 0], [0, 1]]]"
  "rnd_ext saturated_engine = [[[0, 0], [0, 0]], [[0, 0], [0, 0]]]"
  "P_ext saturated_engine =
     [[[10000, 10000], [10000, 10000]], [[10000, 10000], [10000, 10000]]]"
  by (simp_all add: saturated_engine_def example_engine_fields)

lemma cloudy_engine_fields:
  "width cloudy_engine = 2" "depth cloudy_engine = 2" "height cloudy_engine = 2"
  "act cloudy_engine = [[[1, 0], [0, 0]], [[0, 0], [0, 0]]]"
  "cld cloudy_engine = [[[1, 1], [1, 1]], [[1, 1], [1, 1]]]"
  "rnd_ext cloudy_engine = [[[0, 0], [0, 0]], [[0, 0], [0, 0]]]"
  "P_ext cloudy_engine = [[[0, 0], [0, 0]], [[0, 0], [0, 0]]]"
  by (simp_all add: cloudy_engine_def example_engine_fields)

lemma step_cld:
  "cld (step dr self) =
     ew2 (\<lambda>c b. c AND of_bool b) (ew2 (OR) (cld self) (act self))
       (ew2 (>) (random_fill (R_ext dr) (rnd_ext self)) (P_ext self))"
  by (simp only: step_def FE_cld cloud_growth_cld cloud_growth_frame)

text \<open>
  Claim C3, as the code has it. The comparison of extinction is \<open>rnd_ext > P_ext\<close>, so
  the two boundary values act the other way round. With \<open>P_ext\<close> 10000 at every cell and
  draws from 0 to 10000, a step clears \<open>cld\<close> at every cell, whatever \<open>act\<close> and \<open>cld\<close>
  were. With \<open>P_ext\<close> 0 at every cell and \<open>cld\<close> 1 at every cell, a step keeps \<open>cld\<close> at
  every cell that draws a number other than 0 and clears exactly the cells that draw 0.
\<close>

theorem extinction_boundary:
  assumes "well_formed self" "valid_draws dr"
    "i < nat (width self)" "j < nat (depth self)" "k < nat (height self)"
  shows "(uniform (P_ext self) 10000 \<longrightarrow> cell (cld (step dr self)) i j k = 0)
       \<and> (uniform (P_ext self) 0 \<and> uniform (cld self) 1 \<longrightarrow>
            cell (cld (step dr self)) i j k = of_bool (R_ext dr i j k \<noteq> 0))"
proof -
  note idx = assms(3-5)
  note s = well_formed_shapes [OF assms(1)]
  note st = cell_step(3) [OF assms(1) idx, of dr]
  have r: "0 \<le> R_ext dr i j k" "R_ext dr i j k \<le> 10000"
    using assms(2) by (simp_all add: valid_draws_def in_range_def)
  have a: "cell (cld (step dr self)) i j k = 0" if "uniform (P_ext self) 10000"
  proof -
    have "cell (P_ext self) i j k = 10000"
      using that s(8) idx by (rule uniform_cell)
    then show ?thesis
      using r(2) by (simp add: st)
  qed
  have b: "cell (cld (step dr self)) i j k = of_bool (R_ext dr i j k \<noteq> 0)"
    if "uniform (P_ext self) 0" "uniform (cld self) 1"
  proof -
    have p: "cell (P_ext self) i j k = 0"
      using that(1) s(8) idx by (rule uniform_cell)
    have c: "cell (cld self) i j k = 1"
      using that(2) s(3) idx by (rule uniform_cell)
    have "(0 < R_ext dr i j k) = (R_ext dr i j k \<noteq> 0)"
      using r(1) by auto
    then show ?thesis
      by (simp only: st cell_growth(2) [OF assms(1) idx] p c one_or_and_of_bool)
  qed
  show ?thesis
    using a b by blast
qed

theorem extinction_boundary_witness:
  "well_formed saturated_engine \<and> valid_draws (constant_draws 5000)
   \<and> uniform (P_ext saturated_engine) 10000
   \<and> cell (cld saturated_engine) 1 1 1 = 1
   \<and> cell (cld (step (constant_draws 5000) saturated_engine)) 1 1 1 = 0
   \<and> well_formed cloudy_engine \<and> valid_draws first_slab_zero
   \<and> uniform (P_ext cloudy_engine) 0 \<and> uniform (cld cloudy_engine) 1
   \<and> cell (cld (step first_slab_zero cloudy_engine)) 0 1 1 = 0
   \<and> cell (cld (step first_slab_zero cloudy_engine)) 1 1 1 = 1"
proof -
  have v: "valid_draws (constant_draws 5000)" "valid_draws first_slab_zero"
    by (simp_all add: valid_draws_def in_range_def constant_draws_def first_slab_zero_def)
  have u: "uniform (P_ext saturated_engine) 10000" "uniform (P_ext cloudy_engine) 0"
    "uniform (cld cloudy_engine) 1"
    by (simp_all add: uniform_def flatten_def saturated_engine_fields cloudy_engine_fields)
  have a: "(1::nat) < nat (width saturated_engine)" "(1::nat) < nat (depth saturated_engine)"
    "(1::nat) < nat (height saturated_engine)"
    by (simp_all add: saturated_engine_fields)
  have b: "(0::nat) < nat (width cloudy_engine)" "(1::nat) < nat (width cloudy_engine)"
    "(1::nat) < nat (depth cloudy_engine)" "(1::nat) < nat (height cloudy_engine)"
    by (simp_all add: cloudy_engine_fields)
  have c: "cell (cld saturated_engine) (Suc 0) (Suc 0) (Suc 0) = 1"
    by (simp add: saturated_engine_fields cell_def)
  have e: "R_ext first_slab_zero 0 (Suc 0) (Suc 0) = 0"
    "R_ext first_slab_zero (Suc 0) (Suc 0) (Suc 0) = 5000"
    by (simp_all add: first_slab_zero_def)
  show ?thesis
    using extinction_boundary [OF well_formed_saturated_engine v(1) a]
      extinction_boundary [OF well_formed_cloudy_engine v(2) b(1) b(3) b(4)]
      extinction_boundary [OF well_formed_cloudy_engine v(2) b(2) b(3) b(4)]
    by (simp add: u v c e well_formed_saturated_engine well_formed_cloudy_engine)
qed

text \<open>
  The claim as stated fails in both halves. With \<open>P_ext\<close> 10000 everywhere and no active
  cell, a step with every draw 5000 clears the two cloud cells instead of leaving \<open>cld\<close>
  unchanged. With \<open>P_ext\<close> 0 everywhere and cloud everywhere, a step with every draw 5000
  leaves cloud everywhere, although no cell has drawn 0.
\<close>

theorem extinction_boundary_inverted:
  "valid_draws (constant_draws 5000)
   \<and> well_formed saturated_engine
   \<and> act saturated_engine = [[[0, 0], [0, 0]], [[0, 0], [0, 0]]]
   \<and> P_ext saturated_engine =
       [[[10000, 10000], [10000, 10000]], [[10000, 10000], [10000, 10000]]]
   \<and> cld saturated_engine = [[[1, 0], [0, 0]], [[0, 0], [0, 1]]]
   \<and> cld (step (constant_draws 5000) saturated_engine) = [[[0, 0], [0, 0]], [[0, 0], [0, 0]]]
   \<and> cld (step (constant_draws 5000) saturated_engine) \<noteq> cld saturated_engine
   \<and> well_formed cloudy_engine
   \<and> P_ext cloudy_engine = [[[0, 0], [0, 0]], [[0, 0], [0, 0]]]
   \<and> cld cloudy_engine = [[[1, 1], [1, 1]], [[1, 1], [1, 1]]]
   \<and> R_ext (constant_draws 5000) 0 0 0 = 5000
   \<and> cld (step (constant_draws 5000) cloudy_engine) = [[[1, 1], [1, 1]], [[1, 1], [1, 1]]]"
proof -
  have v: "valid_draws (constant_draws 5000)"
    by (simp add: valid_draws_def in_range_def constant_draws_def)
  have r: "random_fill (\<lambda>i j k. 5000) [[[0, 0], [0, 0]], [[0, 0], [0, 0]]] =
      [[[5000, 5000], [5000, 5000]], [[5000, 5000], [5000, 5000]]]"
    by (simp add: random_fill_def upt_rec)
  have s: "cld (step (constant_draws 5000) saturated_engine) =
      [[[0, 0], [0, 0]], [[0, 0], [0, 0]]]"
    by (simp add: step_cld saturated_engine_fields constant_draws_def r ew2_def)
  have c: "cld (step (constant_draws 5000) cloudy_engine) =
      [[[1, 1], [1, 1]], [[1, 1], [1, 1]]]"
    by (simp add: step_cld cloudy_engine_fields constant_draws_def r ew2_def)
  have e: "R_ext (constant_draws 5000) 0 0 0 = 5000"
    by (simp add: constant_draws_def)
  show ?thesis
    by (simp add: v s c e well_formed_saturated_engine well_formed_cloudy_engine
        saturated_engine_fields cloudy_engine_fields)
qed

section \<open>Humidity under zero probabilities\<close>

lemma length_filter_concat:
  "length (filter P (concat xss)) = sum_list (map (\<lambda>xs. length (filter P xs)) xss)"
  by (induction xss) simp_all

lemma count_true_rows:
  "count_true g =
     sum_list (map (\<lambda>p. sum_list (map (\<lambda>r. length (filter (\<lambda>c. c \<noteq> 0) r)) p)) g)"
  by (simp add: count_true_def flatten_def length_filter_concat comp_def)

lemma sum_list_nth_mono:
  fixes f :: "'a \<Rightarrow> nat"
  assumes "length xs = length ys" "\<And>i. i < length xs \<Longrightarrow> f (xs ! i) \<le> f (ys ! i)"
  shows "sum_list (map f xs) \<le> sum_list (map f ys)"
  using assms
proof (induction xs ys rule: list_induct2)
  case Nil
  show ?case by simp
next
  case (Cons x xs y ys)
  have "f x \<le> f y"
    using Cons.prems [of 0] by simp
  moreover have "sum_list (map f xs) \<le> sum_list (map f ys)"
  proof (rule Cons.IH)
    fix i
    assume "i < length xs"
    then show "f (xs ! i) \<le> f (ys ! i)"
      using Cons.prems [of "Suc i"] by simp
  qed
  ultimately show ?case by simp
qed

lemma filter_count_le:
  assumes "length xs = length ys" "\<And>k. k < length xs \<Longrightarrow> P (xs ! k) \<Longrightarrow> P (ys ! k)"
  shows "length (filter P xs) \<le> length (filter P ys)"
  using assms
proof (induction xs ys rule: list_induct2)
  case Nil
  show ?case by simp
next
  case (Cons x xs y ys)
  have h: "P x \<Longrightarrow> P y"
    using Cons.prems [of 0] by simp
  have "length (filter P xs) \<le> length (filter P ys)"
  proof (rule Cons.IH)
    fix k
    assume "k < length xs" "P (xs ! k)"
    then show "P (ys ! k)"
      using Cons.prems [of "Suc k"] by simp
  qed
  then show ?case
    using h by auto
qed

lemma count_true_mono:
  assumes "shaped w d h b" "shaped w d h a"
    "\<And>i j k. i < w \<Longrightarrow> j < d \<Longrightarrow> k < h \<Longrightarrow> cell b i j k \<noteq> 0 \<Longrightarrow> cell a i j k \<noteq> 0"
  shows "count_true b \<le> count_true a"
  unfolding count_true_rows
proof (rule sum_list_nth_mono)
  show "length b = length a"
    using assms(1,2) by (simp add: shaped_len0)
next
  fix i
  assume "i < length b"
  then have i: "i < w"
    using assms(1) by (simp add: shaped_len0)
  show "sum_list (map (\<lambda>r. length (filter (\<lambda>c. c \<noteq> 0) r)) (b ! i))
      \<le> sum_list (map (\<lambda>r. length (filter (\<lambda>c. c \<noteq> 0) r)) (a ! i))"
  proof (rule sum_list_nth_mono)
    show "length (b ! i) = length (a ! i)"
      using assms(1,2) i by (simp add: shaped_len1)
  next
    fix j
    assume "j < length (b ! i)"
    then have j: "j < d"
      using assms(1) i by (simp add: shaped_len1)
    show "length (filter (\<lambda>c. c \<noteq> 0) (b ! i ! j)) \<le> length (filter (\<lambda>c. c \<noteq> 0) (a ! i ! j))"
    proof (rule filter_count_le)
      show "length (b ! i ! j) = length (a ! i ! j)"
        using assms(1,2) i j by (simp add: shaped_len2)
    next
      fix k
      assume "k < length (b ! i ! j)" "b ! i ! j ! k \<noteq> 0"
      then have "k < h" "cell b i j k \<noteq> 0"
        using assms(1) i j by (simp_all add: shaped_len2 cell_def)
      then have "cell a i j k \<noteq> 0"
        using assms(3) i j by blast
      then show "a ! i ! j ! k \<noteq> 0"
        by (simp add: cell_def)
    qed
  qed
qed

lemma zero_prob_at:
  assumes "well_formed self" "zero_prob (P_hum self)"
    "i < nat (width self)" "j < nat (depth self)" "k < nat (height self)"
  shows "prob_at (P_hum self) i j k = 0"
proof (cases "P_hum self")
  case (Tensor t)
  have "shaped (nat (width self)) (nat (depth self)) (nat (height self)) t"
    using assms(1) Tensor by (rule well_formed_P_hum)
  moreover have "uniform t 0"
    using assms(2) Tensor by (simp add: zero_prob_def)
  ultimately have "cell t i j k = 0"
    using assms(3-5) by (intro uniform_cell)
  then show ?thesis
    using Tensor by (simp add: prob_at_def)
next
  case (Scalar v)
  then show ?thesis
    using assms(2) by (simp add: prob_at_def zero_prob_def)
qed

lemma cell_step_hum_zero_prob:
  assumes "well_formed self" "valid_draws dr" "zero_prob (P_hum self)"
    "i < nat (width self)" "j < nat (depth self)" "k < nat (height self)"
  shows "cell (hum (step dr self)) i j k = cell (hum self) i j k AND NOT (cell (act self) i j k)"
proof -
  have "0 \<le> R_hum dr i j k"
    using assms(2) by (simp add: valid_draws_def in_range_def)
  then have "\<not> R_hum dr i j k < prob_at (P_hum self) i j k"
    by (simp add: zero_prob_at [OF assms(1,3-6)])
  then show ?thesis
    by (simp add: cell_step(1) [OF assms(1,4-6)] cell_growth(1) [OF assms(1,4-6)])
qed

lemma and_nonzero: "(a :: u8) AND b \<noteq> 0 \<Longrightarrow> a \<noteq> 0"
  by auto

lemma step_hum_subset:
  assumes "well_formed self" "valid_draws dr" "zero_prob (P_hum self)"
    "i < nat (width self)" "j < nat (depth self)" "k < nat (height self)"
    "cell (hum (step dr self)) i j k \<noteq> 0"
  shows "cell (hum self) i j k \<noteq> 0"
  using assms(7) unfolding cell_step_hum_zero_prob [OF assms(1-6)] by (rule and_nonzero)

lemma simulate_fold: "simulate ds self = fold step ds self"
  by (induction ds arbitrary: self) (simp_all add: step_def)

lemma fold_step_frame:
  "width (fold step ds self) = width self \<and> depth (fold step ds self) = depth self
   \<and> height (fold step ds self) = height self \<and> P_hum (fold step ds self) = P_hum self"
  by (induction ds arbitrary: self) (simp_all add: step_frame)

lemma well_formed_fold_step: "well_formed self \<Longrightarrow> well_formed (fold step ds self)"
  by (induction ds arbitrary: self) (simp_all add: well_formed_step)

lemma fold_step_hum_subset:
  assumes "well_formed self" "list_all valid_draws ds" "zero_prob (P_hum self)"
    "i < nat (width self)" "j < nat (depth self)" "k < nat (height self)"
    "cell (hum (fold step ds self)) i j k \<noteq> 0"
  shows "cell (hum self) i j k \<noteq> 0"
  using assms
proof (induction ds arbitrary: self)
  case Nil
  then show ?case by simp
next
  case (Cons dr ds)
  have v: "valid_draws dr" "list_all valid_draws ds"
    using Cons.prems(2) by simp_all
  have "cell (hum (step dr self)) i j k \<noteq> 0"
  proof (rule Cons.IH)
    show "well_formed (step dr self)"
      using Cons.prems(1) by (rule well_formed_step)
    show "list_all valid_draws ds" by (rule v(2))
    show "zero_prob (P_hum (step dr self))"
      using Cons.prems(3) by (simp only: step_frame)
    show "i < nat (width (step dr self))" "j < nat (depth (step dr self))"
      "k < nat (height (step dr self))"
      using Cons.prems(4-6) by (simp_all only: step_frame)
    show "cell (hum (fold step ds (step dr self))) i j k \<noteq> 0"
      using Cons.prems(7) by simp
  qed
  with Cons.prems(1) v(1) Cons.prems(3-6) show ?case
    by (rule step_hum_subset)
qed

text \<open>
  Claim C10. On a well-formed engine whose humidity probability is 0 at every cell, with
  draws from 0 to 10000, the humidity after any number of steps is a subset of the humidity
  before them: a cell that is humid afterwards was humid before, and the number of humid
  cells has not grown. After one step the humidity is exactly the former humidity without
  the formerly active cells. The activation and extinction probabilities play no part, so
  the statement holds in particular when all three probabilities are zero. The loop of
  \<open>simulate\<close> is the same sequence of steps.
\<close>

theorem humidity_never_increases:
  assumes "well_formed self" "list_all valid_draws ds" "zero_prob (P_hum self)"
  shows "count_true (hum (fold step ds self)) \<le> count_true (hum self)
       \<and> (\<forall>i j k. i < nat (width self) \<and> j < nat (depth self) \<and> k < nat (height self)
             \<and> cell (hum (fold step ds self)) i j k \<noteq> 0 \<longrightarrow> cell (hum self) i j k \<noteq> 0)
       \<and> (\<forall>dr i j k. valid_draws dr \<and> i < nat (width self) \<and> j < nat (depth self)
             \<and> k < nat (height self) \<longrightarrow>
             cell (hum (step dr self)) i j k =
               cell (hum self) i j k AND NOT (cell (act self) i j k))
       \<and> simulate ds self = fold step ds self"
proof -
  note f = fold_step_frame [of ds self]
  have "shaped (nat (width self)) (nat (depth self)) (nat (height self))
      (hum (fold step ds self))"
    using well_formed_shapes(1) [OF well_formed_fold_step [OF assms(1), of ds]]
    by (simp only: f)
  then have "count_true (hum (fold step ds self)) \<le> count_true (hum self)"
    using well_formed_shapes(1) [OF assms(1)]
  proof (rule count_true_mono)
    fix i j k
    assume "i < nat (width self)" "j < nat (depth self)" "k < nat (height self)"
      "cell (hum (fold step ds self)) i j k \<noteq> 0"
    with assms show "cell (hum self) i j k \<noteq> 0"
      by (rule fold_step_hum_subset)
  qed
  moreover have "\<forall>i j k. i < nat (width self) \<and> j < nat (depth self) \<and> k < nat (height self)
      \<and> cell (hum (fold step ds self)) i j k \<noteq> 0 \<longrightarrow> cell (hum self) i j k \<noteq> 0"
    using fold_step_hum_subset [OF assms] by blast
  moreover have "\<forall>dr i j k. valid_draws dr \<and> i < nat (width self) \<and> j < nat (depth self)
      \<and> k < nat (height self) \<longrightarrow>
      cell (hum (step dr self)) i j k = cell (hum self) i j k AND NOT (cell (act self) i j k)"
    using cell_step_hum_zero_prob [OF assms(1) _ assms(3)] by blast
  ultimately show ?thesis
    by (simp only: simulate_fold simp_thms)
qed

theorem humidity_never_increases_witness:
  "well_formed example_engine
   \<and> valid_draws (constant_draws 5000) \<and> valid_draws first_slab_zero
   \<and> zero_prob (P_hum example_engine)
   \<and> count_true (hum example_engine) = 8
   \<and> count_true (hum (fold step [constant_draws 5000, first_slab_zero] example_engine)) \<le> 8
   \<and> cell (hum (step first_slab_zero example_engine)) 0 0 0 = 0
   \<and> cell (hum (step first_slab_zero example_engine)) 1 0 1 = 1"
proof -
  have v: "valid_draws (constant_draws 5000)" "valid_draws first_slab_zero"
    by (simp_all add: valid_draws_def in_range_def constant_draws_def first_slab_zero_def)
  have z: "zero_prob (P_hum example_engine)"
    by (simp add: zero_prob_def uniform_def flatten_def example_engine_fields)
  have c: "count_true (hum example_engine) = 8"
    by (simp add: count_true_def flatten_def example_engine_fields)
  have l: "list_all valid_draws [constant_draws 5000, first_slab_zero]"
    using v by simp
  have d: "nat (width example_engine) = 2" "nat (depth example_engine) = 2"
    "nat (height example_engine) = 2"
    by (simp_all add: example_engine_fields)
  have e: "cell (hum example_engine) 0 0 0 = 1" "cell (act example_engine) 0 0 0 = 1"
    "cell (hum example_engine) (Suc 0) 0 (Suc 0) = 1"
    "cell (act example_engine) (Suc 0) 0 (Suc 0) = 0"
    by (simp_all add: example_engine_fields cell_def)
  note t = humidity_never_increases [OF well_formed_example_engine l z]
  note s = t [THEN conjunct2, THEN conjunct2, THEN conjunct1]
  show ?thesis
    using t [THEN conjunct1] s [rule_format, of first_slab_zero 0 0 0]
      s [rule_format, of first_slab_zero 1 0 1]
    by (simp add: v z c d e well_formed_example_engine)
qed

section \<open>The fields stay binary\<close>

lemma in_flatten: "c \<in> set (flatten g) \<longleftrightarrow> (\<exists>P \<in> set g. \<exists>R \<in> set P. c \<in> set R)"
  by (auto simp: flatten_def)

lemma set_map2:
  assumes "c \<in> set (map2 f xs ys)"
  shows "\<exists>x \<in> set xs. \<exists>y \<in> set ys. c = f x y"
proof -
  from assms obtain p where "p \<in> set (zip xs ys)" "c = f (fst p) (snd p)"
    by (auto simp: case_prod_beta)
  moreover from this have "fst p \<in> set xs" "snd p \<in> set ys"
    by (metis prod.collapse set_zip_leftD, metis prod.collapse set_zip_rightD)
  ultimately show ?thesis by blast
qed

lemma flatten_ew2:
  assumes "c \<in> set (flatten (ew2 f a b))"
  shows "\<exists>x \<in> set (flatten a). \<exists>y \<in> set (flatten b). c = f x y"
proof -
  from assms obtain P R where P: "P \<in> set (map2 (map2 (map2 f)) a b)" "R \<in> set P" "c \<in> set R"
    unfolding in_flatten ew2_def by blast
  from set_map2 [OF P(1)] obtain p q where p: "p \<in> set a" "q \<in> set b" "P = map2 (map2 f) p q"
    by blast
  from set_map2 [OF P(2) [unfolded p(3)]] obtain r s where
    r: "r \<in> set p" "s \<in> set q" "R = map2 f r s"
    by blast
  from set_map2 [OF P(3) [unfolded r(3)]] obtain x y where
    x: "x \<in> set r" "y \<in> set s" "c = f x y"
    by blast
  have "x \<in> set (flatten a)"
    unfolding in_flatten using p(1) r(1) x(1) by blast
  moreover have "y \<in> set (flatten b)"
    unfolding in_flatten using p(2) r(2) x(2) by blast
  ultimately show ?thesis
    using x(3) by blast
qed

lemma binary_ew2_left:
  assumes "binary a" "\<And>y. f 0 y = 0 \<or> f 0 y = 1" "\<And>y. f 1 y = 0 \<or> f 1 y = 1"
  shows "binary (ew2 f a b)"
  unfolding binary_def
proof
  fix c
  assume "c \<in> set (flatten (ew2 f a b))"
  then obtain x y where "x \<in> set (flatten a)" "c = f x y"
    by (blast dest: flatten_ew2)
  moreover from this assms(1) have "x = 0 \<or> x = 1"
    by (simp add: binary_def)
  ultimately show "c = 0 \<or> c = 1"
    using assms(2,3) by auto
qed

lemma binary_ew2_right:
  assumes "binary b" "\<And>x. f x 0 = 0 \<or> f x 0 = 1" "\<And>x. f x 1 = 0 \<or> f x 1 = 1"
  shows "binary (ew2 f a b)"
  unfolding binary_def
proof
  fix c
  assume "c \<in> set (flatten (ew2 f a b))"
  then obtain x y where "y \<in> set (flatten b)" "c = f x y"
    by (blast dest: flatten_ew2)
  moreover from this assms(1) have "y = 0 \<or> y = 1"
    by (simp add: binary_def)
  ultimately show "c = 0 \<or> c = 1"
    using assms(2,3) by auto
qed

lemma binary_ew2_or:
  assumes "binary a" "binary b"
  shows "binary (ew2 (OR) a b)"
  unfolding binary_def
proof
  fix c
  assume "c \<in> set (flatten (ew2 (OR) a b))"
  then obtain x y where "x \<in> set (flatten a)" "y \<in> set (flatten b)" "c = x OR y"
    by (blast dest: flatten_ew2)
  moreover from this assms have "x = 0 \<or> x = 1" "y = 0 \<or> y = 1"
    by (simp_all add: binary_def)
  ultimately show "c = 0 \<or> c = 1"
    by auto
qed

lemma one_and_binary: "(1 :: u8) AND y = 0 \<or> (1 :: u8) AND y = 1"
  by (simp add: one_and_eq mod_2_eq_odd)

lemma and_one_binary: "(x :: u8) AND 1 = 0 \<or> x AND 1 = 1"
  by (simp add: and_one_eq mod_2_eq_odd)

lemma or_of_bool_binary: "(1 :: u8) OR of_bool b = 1" "(0 :: u8) OR of_bool b = 0 \<or> (0 :: u8) OR of_bool b = 1"
  by (cases b; simp)+

lemma and_of_bool_binary: "(1 :: u8) AND of_bool b = 0 \<or> (1 :: u8) AND of_bool b = 1"
  by (cases b) simp_all

lemma binary_zeros: "binary (zeros w d h)"
  by (auto simp: binary_def flatten_def zeros_def)

lemma binary_cloud_growth:
  assumes "binary (hum self)" "binary (act self)" "binary (cld self)"
  shows "binary (hum (cloud_growth self))" "binary (act (cloud_growth self))"
    "binary (cld (cloud_growth self))"
proof -
  show "binary (hum (cloud_growth self))"
    unfolding cloud_growth_hum using assms(1)
    by (rule binary_ew2_left) (simp_all add: one_and_binary)
  have "binary (ew2 (AND) (map3 NOT (act self)) (hum self))"
    using assms(1) by (rule binary_ew2_right) (simp_all add: and_one_binary)
  then show "binary (act (cloud_growth self))"
    unfolding cloud_growth_act
    by (rule binary_ew2_left) (simp_all add: one_and_binary)
  show "binary (cld (cloud_growth self))"
    unfolding cloud_growth_cld using assms(3,2) by (rule binary_ew2_or)
qed

lemma binary_FE:
  assumes "binary (hum self)" "binary (act self)" "binary (cld self)"
  shows "binary (hum (cloud_FormationExtinction dr self))"
    "binary (act (cloud_FormationExtinction dr self))"
    "binary (cld (cloud_FormationExtinction dr self))"
proof -
  show "binary (hum (cloud_FormationExtinction dr self))"
    unfolding FE_hum using assms(1)
    by (rule binary_ew2_left) (simp_all add: or_of_bool_binary)
  show "binary (act (cloud_FormationExtinction dr self))"
    unfolding FE_act using assms(2)
    by (rule binary_ew2_left) (simp_all add: or_of_bool_binary)
  show "binary (cld (cloud_FormationExtinction dr self))"
    unfolding FE_cld using assms(3)
    by (rule binary_ew2_left) (simp_all add: and_of_bool_binary)
qed

lemma binary_apply_call:
  assumes "binary (hum self) \<and> binary (act self) \<and> binary (cld self)"
  shows "binary (hum (apply_call fa c self)) \<and> binary (act (apply_call fa c self))
    \<and> binary (cld (apply_call fa c self))"
proof (cases c)
  case (Seed c_x c_y c_z f_x f_y f_z pHum pAct pExt radius overlap)
  then show ?thesis
    using assms by (simp add: seeding_frame)
next
  case (Step dr)
  note g = binary_cloud_growth [of self]
  have "binary (hum (cloud_growth self))" "binary (act (cloud_growth self))"
    "binary (cld (cloud_growth self))"
    using assms by (simp_all add: binary_cloud_growth)
  then show ?thesis
    using Step by (simp add: step_def binary_FE)
qed

lemma binary_run_calls:
  assumes "binary (hum self) \<and> binary (act self) \<and> binary (cld self)"
  shows "binary (hum (run_calls fa calls self)) \<and> binary (act (run_calls fa calls self))
    \<and> binary (cld (run_calls fa calls self))"
  using assms unfolding run_calls_def
proof (induction calls arbitrary: self)
  case Nil
  then show ?case by simp
next
  case (Cons c calls)
  have "binary (hum (apply_call fa c self)) \<and> binary (act (apply_call fa c self))
      \<and> binary (cld (apply_call fa c self))"
    using Cons.prems by (rule binary_apply_call)
  then show ?case
    using Cons.IH [of "apply_call fa c self"] by simp
qed

lemma CAclouds3D_init_fields:
  assumes "CAclouds3D_init w d h = Inr self"
  shows "hum self = zeros w d h" "act self = zeros w d h" "cld self = zeros w d h"
  using assms
  by (auto simp: CAclouds3D_init_def arange_def new_engine_def split: if_splits)

text \<open>
  Claim C9. Whatever the dimensions that construction accepts, and whatever seeding calls
  and steps follow it, in any order and number, with any arguments and any draws, every
  cell of \<open>hum\<close>, \<open>act\<close> and \<open>cld\<close> of the state reached is 0 or 1.
\<close>

theorem fields_stay_binary:
  assumes "CAclouds3D_init w d h = Inr self"
  shows "binary (hum (run_calls fa calls self)) \<and> binary (act (run_calls fa calls self))
       \<and> binary (cld (run_calls fa calls self))"
proof (rule binary_run_calls)
  show "binary (hum self) \<and> binary (act self) \<and> binary (cld self)"
    by (simp add: CAclouds3D_init_fields [OF assms] binary_zeros)
qed

theorem fields_stay_binary_witness:
  "CAclouds3D_init 2 2 2 = Inr (new_engine 2 2 2 (meshgrid [0, 1] [0, 1] [0, 1]))
   \<and> binary (hum (run_calls exact_arith
        [Seed 0 0 0 1 1 1 10000 10000 0 1 0, Step (constant_draws 5000),
         Step (constant_draws 5000)]
        (new_engine 2 2 2 (meshgrid [0, 1] [0, 1] [0, 1]))))
   \<and> binary (act (run_calls exact_arith
        [Seed 0 0 0 1 1 1 10000 10000 0 1 0, Step (constant_draws 5000),
         Step (constant_draws 5000)]
        (new_engine 2 2 2 (meshgrid [0, 1] [0, 1] [0, 1]))))
   \<and> binary (cld (run_calls exact_arith
        [Seed 0 0 0 1 1 1 10000 10000 0 1 0, Step (constant_draws 5000),
         Step (constant_draws 5000)]
        (new_engine 2 2 2 (meshgrid [0, 1] [0, 1] [0, 1]))))"
proof -
  have i: "CAclouds3D_init 2 2 2 = Inr (new_engine 2 2 2 (meshgrid [0, 1] [0, 1] [0, 1]))"
    by (simp add: CAclouds3D_init_def arange_def upto.simps)
  show ?thesis
    using fields_stay_binary [OF i, where fa = exact_arith
        and calls = "[Seed 0 0 0 1 1 1 10000 10000 0 1 0, Step (constant_draws 5000),
          Step (constant_draws 5000)]"]
    by (simp only: i simp_thms)
qed

section \<open>Extraction of the cloud positions\<close>

lemma in_cells: "(i, j, k) \<in> set (cells w d h) \<longleftrightarrow> i < w \<and> j < d \<and> k < h"
  by (auto simp: cells_def image_iff)

lemma distinct_concat_map:
  assumes "distinct xs" "\<And>x. x \<in> set xs \<Longrightarrow> distinct (f x)"
    "\<And>x y. x \<in> set xs \<Longrightarrow> y \<in> set xs \<Longrightarrow> x \<noteq> y \<Longrightarrow> set (f x) \<inter> set (f y) = {}"
  shows "distinct (concat (map f xs))"
  using assms
proof (induction xs)
  case Nil
  show ?case by simp
next
  case (Cons x xs)
  have "distinct (concat (map f xs))"
    using Cons.prems by (intro Cons.IH) auto
  moreover have "distinct (f x)"
    using Cons.prems(2) by simp
  moreover have "set (f x) \<inter> set (f y) = {}" if "y \<in> set xs" for y
    using Cons.prems(1) that by (intro Cons.prems(3)) auto
  ultimately show ?case
    by auto
qed

lemma distinct_cells: "distinct (cells w d h)"
  unfolding cells_def
proof (rule distinct_concat_map)
  show "distinct [0..<w]" by simp
next
  fix i
  show "distinct (concat (map (\<lambda>j. map (\<lambda>k. (i, j, k)) [0..<h]) [0..<d]))"
    by (rule distinct_concat_map) (auto simp: distinct_map inj_on_def)
next
  fix i i' :: nat
  assume "i \<noteq> i'"
  then show "set (concat (map (\<lambda>j. map (\<lambda>k. (i, j, k)) [0..<h]) [0..<d]))
      \<inter> set (concat (map (\<lambda>j. map (\<lambda>k. (i', j, k)) [0..<h]) [0..<d])) = {}"
    by auto
qed

lemma flatten_cells:
  assumes "shaped w d h g"
  shows "flatten g = map (\<lambda>(i, j, k). cell g i j k) (cells w d h)"
proof -
  have row: "g ! i ! j = map (\<lambda>k. cell g i j k) [0..<h]" if "i < w" "j < d" for i j
    using assms that by (intro nth_equalityI) (simp_all add: shaped_len2 cell_def)
  have plane: "concat (g ! i) = concat (map (\<lambda>j. map (\<lambda>k. cell g i j k) [0..<h]) [0..<d])"
    if "i < w" for i
  proof -
    have "g ! i = map (\<lambda>j. g ! i ! j) [0..<d]"
      using assms that by (intro nth_equalityI) (simp_all add: shaped_len1)
    also have "\<dots> = map (\<lambda>j. map (\<lambda>k. cell g i j k) [0..<h]) [0..<d]"
      using that by (intro map_cong refl) (simp add: row)
    finally show ?thesis by simp
  qed
  have "map concat g = map (\<lambda>i. concat (g ! i)) [0..<w]"
    using assms by (intro nth_equalityI) (simp_all add: shaped_len0)
  also have "\<dots> = map (\<lambda>i. concat (map (\<lambda>j. map (\<lambda>k. cell g i j k) [0..<h]) [0..<d])) [0..<w]"
    by (intro map_cong refl) (simp add: plane)
  finally have "flatten g =
      concat (map (\<lambda>i. concat (map (\<lambda>j. map (\<lambda>k. cell g i j k) [0..<h]) [0..<d])) [0..<w])"
    by (simp add: flatten_def)
  then show ?thesis
    by (simp add: cells_def map_concat comp_def)
qed

lemma select_map: "select (map f ts) (map c ts) = map f (filter c ts)"
  by (induction ts) (simp_all add: select_def)

lemma view3_three:
  assumes "length b = length a" "length c = length a"
  shows "view3 (a @ b @ c) = [a, b, c]"
proof -
  have "length (a @ b @ c) div 3 = length a"
    using assms by simp
  then show ?thesis
    using assms by (simp add: view3_def Let_def)
qed

lemma transpose01_three:
  "transpose01 [map x ts, map y ts, map z ts] = map (\<lambda>t. [x t, y t, z t]) ts"
  by (rule nth_equalityI) (simp_all add: transpose01_def)

lemma positions_of_maps:
  "transpose01 (view3 (select (map x ts) (map c ts) @ select (map y ts) (map c ts)
      @ select (map z ts) (map c ts))) = map (\<lambda>t. [x t, y t, z t]) (filter c ts)"
  by (simp add: select_map view3_three transpose01_three)

lemma map_filter_cells:
  "map (\<lambda>(i, j, k). f i j k) (filter (\<lambda>(i, j, k). P i j k) (cells w d h)) =
     concat (map (\<lambda>i. concat (map (\<lambda>j. concat (map (\<lambda>k. if P i j k then [f i j k] else [])
       [0..<h])) [0..<d])) [0..<w])"
proof -
  have inner: "map (\<lambda>(i, j, k). f i j k) (filter (\<lambda>(i, j, k). P i j k) (map (\<lambda>k. (i, j, k)) ks)) =
      concat (map (\<lambda>k. if P i j k then [f i j k] else []) ks)" for i j ks
    by (induction ks) simp_all
  show ?thesis
    by (simp add: cells_def filter_concat map_concat comp_def inner)
qed

lemma get_cloud_positions_cells:
  assumes "well_formed self"
  shows "get_cloud_positions self =
     map (\<lambda>(i, j, k). [int i, int j, int k])
       (filter (\<lambda>(i, j, k). cell (cld self) i j k = 1)
          (cells (nat (width self)) (nat (depth self)) (nat (height self))))"
proof -
  let ?ts = "cells (nat (width self)) (nat (depth self)) (nat (height self))"
  have c: "map (\<lambda>c. c = 1) (flatten (cld self)) = map (\<lambda>(i, j, k). cell (cld self) i j k = 1) ?ts"
    by (simp add: flatten_cells [OF well_formed_shapes(3) [OF assms]] case_prod_beta)
  have x: "flatten (x_coord self) = map (\<lambda>(i, j, k). int i) ?ts"
    unfolding flatten_cells [OF well_formed_coord_shapes(1) [OF assms]]
    by (rule map_cong [OF refl]) (auto simp: in_cells well_formed_coord_cells [OF assms])
  have y: "flatten (y_coord self) = map (\<lambda>(i, j, k). int j) ?ts"
    unfolding flatten_cells [OF well_formed_coord_shapes(2) [OF assms]]
    by (rule map_cong [OF refl]) (auto simp: in_cells well_formed_coord_cells [OF assms])
  have z: "flatten (z_coord self) = map (\<lambda>(i, j, k). int k) ?ts"
    unfolding flatten_cells [OF well_formed_coord_shapes(3) [OF assms]]
    by (rule map_cong [OF refl]) (auto simp: in_cells well_formed_coord_cells [OF assms])
  have "get_cloud_positions self =
      map (\<lambda>t. [(\<lambda>(i, j, k). int i) t, (\<lambda>(i, j, k). int j) t, (\<lambda>(i, j, k). int k) t])
        (filter (\<lambda>(i, j, k). cell (cld self) i j k = 1) ?ts)"
    unfolding get_cloud_positions_def Let_def c x y z by (rule positions_of_maps)
  then show ?thesis
    by (simp add: case_prod_beta)
qed

text \<open>
  Claim C8. On a well-formed engine \<open>get_cloud_positions\<close> returns the triples of the
  indices of the cells whose \<open>cld\<close> is 1, each cell once, in the order of the flattened
  tensors: first index slowest, last index fastest, the order of the axes in construction.
  So the triples returned are exactly those of the cells with \<open>cld\<close> 1, and the result is
  empty when no cell has \<open>cld\<close> 1.
\<close>

theorem positions_are_the_cloud_cells:
  assumes "well_formed self"
  shows "get_cloud_positions self =
           [[int i, int j, int k].
              i \<leftarrow> [0..<nat (width self)], j \<leftarrow> [0..<nat (depth self)],
              k \<leftarrow> [0..<nat (height self)], cell (cld self) i j k = 1]
       \<and> set (get_cloud_positions self) =
           {[int i, int j, int k] | i j k.
              i < nat (width self) \<and> j < nat (depth self) \<and> k < nat (height self)
              \<and> cell (cld self) i j k = 1}
       \<and> distinct (get_cloud_positions self)
       \<and> ((\<forall>i j k. i < nat (width self) \<and> j < nat (depth self) \<and> k < nat (height self)
              \<longrightarrow> cell (cld self) i j k \<noteq> 1) \<longrightarrow> get_cloud_positions self = [])"
proof -
  let ?ts = "cells (nat (width self)) (nat (depth self)) (nat (height self))"
  let ?P = "\<lambda>(i, j, k). cell (cld self) i j k = 1"
  let ?F = "\<lambda>(i :: nat, j :: nat, k :: nat). [int i, int j, int k]"
  note g = get_cloud_positions_cells [OF assms]
  have a: "get_cloud_positions self =
           [[int i, int j, int k].
              i \<leftarrow> [0..<nat (width self)], j \<leftarrow> [0..<nat (depth self)],
              k \<leftarrow> [0..<nat (height self)], cell (cld self) i j k = 1]"
    unfolding g by (rule map_filter_cells)
  have b: "set (get_cloud_positions self) =
           {[int i, int j, int k] | i j k.
              i < nat (width self) \<and> j < nat (depth self) \<and> k < nat (height self)
              \<and> cell (cld self) i j k = 1}"
    unfolding g by (auto simp: in_cells image_iff)
  have "distinct (filter ?P ?ts)"
    by (simp add: distinct_cells)
  moreover have "inj_on ?F (set (filter ?P ?ts))"
    by (auto simp: inj_on_def)
  ultimately have c: "distinct (get_cloud_positions self)"
    unfolding g by (simp add: distinct_map)
  have d: "get_cloud_positions self = []"
    if "\<forall>i j k. i < nat (width self) \<and> j < nat (depth self) \<and> k < nat (height self)
              \<longrightarrow> cell (cld self) i j k \<noteq> 1"
    using that unfolding g by (auto simp: filter_empty_conv in_cells)
  show ?thesis
    using a b c d by blast
qed

theorem positions_are_the_cloud_cells_witness:
  "well_formed example_engine
   \<and> cld example_engine = [[[1, 0], [0, 0]], [[0, 0], [0, 1]]]
   \<and> get_cloud_positions example_engine = [[0, 0, 0], [1, 1, 1]]
   \<and> well_formed (new_engine 2 2 2 (meshgrid [0, 1] [0, 1] [0, 1]))
   \<and> get_cloud_positions (new_engine 2 2 2 (meshgrid [0, 1] [0, 1] [0, 1])) = []"
proof -
  have w: "well_formed (new_engine 2 2 2 (meshgrid [0, 1] [0, 1] [0, 1]))"
    by (simp add: well_formed_def has_shape_def shaped_def new_engine_def meshgrid_def
        zeros_def upto.simps)
  have n: "nat (width (new_engine 2 2 2 (meshgrid [0, 1] [0, 1] [0, 1]))) = Suc (Suc 0)"
    "nat (depth (new_engine 2 2 2 (meshgrid [0, 1] [0, 1] [0, 1]))) = Suc (Suc 0)"
    "nat (height (new_engine 2 2 2 (meshgrid [0, 1] [0, 1] [0, 1]))) = Suc (Suc 0)"
    "cld (new_engine 2 2 2 (meshgrid [0, 1] [0, 1] [0, 1])) =
       [[[0, 0], [0, 0]], [[0, 0], [0, 0]]]"
    by (simp_all add: new_engine_def zeros_def numeral_2_eq_2)
  have e: "nat (width example_engine) = Suc (Suc 0)" "nat (depth example_engine) = Suc (Suc 0)"
    "nat (height example_engine) = Suc (Suc 0)"
    by (simp_all add: example_engine_fields)
  have "get_cloud_positions example_engine = [[0, 0, 0], [1, 1, 1]]"
    using positions_are_the_cloud_cells [OF well_formed_example_engine, THEN conjunct1]
    by (simp add: e example_engine_fields(6) cell_def)
  moreover have "get_cloud_positions (new_engine 2 2 2 (meshgrid [0, 1] [0, 1] [0, 1])) = []"
    using positions_are_the_cloud_cells [OF w, THEN conjunct1]
    by (simp add: n cell_def)
  ultimately show ?thesis
    by (simp add: w well_formed_example_engine example_engine_fields(6))
qed

section \<open>Every engine that can be reached is well formed\<close>

text \<open>
  The theorems above that assume a well-formed engine apply to every state that a client
  can reach: construction gives a well-formed engine, and seeding and steps keep it so.
\<close>

lemma well_formed_seeding:
  assumes "well_formed self"
  shows "well_formed (fst (init_elliptic_probabilities fa self c_x c_y c_z f_x f_y f_z
      pHum pAct pExt radius overlap))"
proof -
  note s = well_formed_shapes [OF assms]
  have D: "shaped (nat (width self)) (nat (depth self)) (nat (height self))
      (seeding_distance fa self c_x c_y c_z f_x f_y f_z)"
    unfolding seeding_distance_def using assms by (rule shaped_distance)
  have "shaped (nat (width self)) (nat (depth self)) (nat (height self))
      (P_act (fst (init_elliptic_probabilities fa self c_x c_y c_z f_x f_y f_z
         pHum pAct pExt radius overlap)))"
    unfolding seeding_P_act by (intro shaped_masked_fill shaped_map3 D s)
  moreover have "shaped (nat (width self)) (nat (depth self)) (nat (height self))
      (P_ext (fst (init_elliptic_probabilities fa self c_x c_y c_z f_x f_y f_z
         pHum pAct pExt radius overlap)))"
    unfolding seeding_P_ext by (intro shaped_masked_fill shaped_map3 D s)
  ultimately show ?thesis
    using assms by (simp add: well_formed_def has_shape_def seeding_frame seeding_P_hum)
qed

lemma well_formed_CAclouds3D_init:
  assumes "CAclouds3D_init w d h = Inr self"
  shows "well_formed self"
proof -
  have "0 \<le> w \<and> 0 \<le> d \<and> 0 \<le> h"
    using assms CAclouds3D_init_negative [of w d h] by fastforce
  then show ?thesis
    using assms well_formed_new_engine [of w d h] by (simp add: CAclouds3D_init_ok)
qed

lemma well_formed_apply_call:
  assumes "well_formed self"
  shows "well_formed (apply_call fa c self)"
  using assms by (cases c) (simp_all add: well_formed_seeding well_formed_step)

lemma well_formed_run_calls:
  assumes "CAclouds3D_init w d h = Inr self"
  shows "well_formed (run_calls fa calls self)"
proof -
  have "well_formed s \<Longrightarrow> well_formed (fold (apply_call fa) calls s)" for s
    by (induction calls arbitrary: s) (simp_all add: well_formed_apply_call)
  then show ?thesis
    unfolding run_calls_def using well_formed_CAclouds3D_init [OF assms] by blast
qed

end
